theory Spec2Isabelle
  imports Complex_Main
begin

section \<open>The tag parser of the metadata action (\<^verbatim>\<open>src/tag.ts\<close>)\<close>

text \<open>
  \<^verbatim>\<open>Parse\<close> turns one line of the \<^verbatim>\<open>tags\<close> input into a \<^verbatim>\<open>Tag\<close> (a type and a
  dictionary of attributes); \<^verbatim>\<open>Transform\<close> parses every line and sorts the tags by
  priority. Both are embedded here as HOL functions. An exception of the source is a
  value \<open>Inl e\<close> of the result type.

  A JavaScript string is modelled as a \<^typ>\<open>string\<close>, each \<^typ>\<open>char\<close> read as one code
  unit in the range U+0000 to U+00FF. The functions of the JavaScript runtime and of
  the \<^verbatim>\<open>csv-parse\<close> package that the source calls (\<^verbatim>\<open>trim\<close>, \<^verbatim>\<open>toLowerCase\<close>,
  \<^verbatim>\<open>split\<close>, \<^verbatim>\<open>Number\<close>, \<^verbatim>\<open>Array.prototype.sort\<close>, the synchronous CSV parser) are
  modelled after their specification, on that range of characters.
\<close>

subsection \<open>Strings of the runtime\<close>

text \<open>
  \<^verbatim>\<open>WhiteSpace\<close> and \<^verbatim>\<open>LineTerminator\<close> of ECMAScript below U+0100: TAB, LF, VT, FF,
  CR, SP and NBSP.
\<close>

definition isWhiteSpace :: "char \<Rightarrow> bool" where
  "isWhiteSpace c = (c \<in> set [CHR 0x09, CHR 0x0A, CHR 0x0B, CHR 0x0C, CHR 0x0D, CHR 0x20, CHR 0xA0])"

text \<open>\<^verbatim>\<open>String.prototype.trim\<close>.\<close>

definition trim :: "string \<Rightarrow> string" where
  "trim s = rev (dropWhile isWhiteSpace (rev (dropWhile isWhiteSpace s)))"

text \<open>
  \<^verbatim>\<open>String.prototype.toLowerCase\<close>: below U+0100 the letters with a lower case are
  A to Z, U+00C0 to U+00D6 and U+00D8 to U+00DE, each 32 below its lower case.
\<close>

definition toLowerChar :: "char \<Rightarrow> char" where
  "toLowerChar c =
     (let n = (of_char c :: nat)
      in if (65 \<le> n \<and> n \<le> 90) \<or> (192 \<le> n \<and> n \<le> 214) \<or> (216 \<le> n \<and> n \<le> 222)
         then char_of (n + 32) else c)"

definition toLowerCase :: "string \<Rightarrow> string" where
  "toLowerCase s = map toLowerChar s"

text \<open>
  \<^verbatim>\<open>s.split(sep)\<close> for a separator of one character: the pieces between the
  separators, so one piece more than there are separators.
\<close>

fun split_all :: "char \<Rightarrow> string \<Rightarrow> string list" where
  "split_all sep [] = [[]]"
| "split_all sep (c # cs) =
     (if c = sep then [] # split_all sep cs
      else (case split_all sep cs of
              [] \<Rightarrow> [[c]]
            | p # ps \<Rightarrow> (c # p) # ps))"

text \<open>
  \<^verbatim>\<open>s.split(sep, limit)\<close>: the limit truncates the list of pieces; what follows the
  last kept piece is dropped.
\<close>

definition split :: "string \<Rightarrow> char \<Rightarrow> nat \<Rightarrow> string list" where
  "split s sep limit = take limit (split_all sep s)"

subsection \<open>The CSV parser\<close>

text \<open>
  \<^verbatim>\<open>csvparse(s, {relaxColumnCount: true, skipLinesWithEmptyValues: true})\<close> of
  \<^verbatim>\<open>csv-parse/lib/sync\<close> (version 4), with every other option at its default: the
  delimiter is a comma, the quote and the escape are the double quote, the record
  delimiter is discovered at the first line break outside quotes, nothing is trimmed,
  and \<^verbatim>\<open>relax\<close> is off. The model follows the loop of the parser's \<^verbatim>\<open>__parse\<close>
  character by character.
\<close>

datatype CsvErrorCode =
    INVALID_OPENING_QUOTE
  | CSV_INVALID_CLOSING_QUOTE
  | CSV_QUOTE_NOT_CLOSED

datatype RecordDelimiter = Undiscovered | LF | CR | CRLF

record ParserState =
  quoting :: bool
  wasQuoting :: bool
  field :: string
  rec :: "string list"
  records :: "string list list"
  record_delimiter :: RecordDelimiter

definition quote :: char where
  "quote = CHR 0x22"

definition delimiter :: char where
  "delimiter = CHR '',''"

definition cr :: char where
  "cr = CHR 0x0D"

definition nl :: char where
  "nl = CHR 0x0A"

definition initState :: ParserState where
  "initState = \<lparr>quoting = False, wasQuoting = False, field = [], rec = [],
                 records = [], record_delimiter = Undiscovered\<rparr>"

text \<open>
  \<^verbatim>\<open>__autoDiscoverRecordDelimiter(buf, pos)\<close>, called while no record delimiter is
  known; \<open>buf\<close> is the buffer from \<open>pos\<close> on.
\<close>

definition autoDiscoverRecordDelimiter :: "ParserState \<Rightarrow> string \<Rightarrow> ParserState" where
  "autoDiscoverRecordDelimiter st buf =
     (if record_delimiter st \<noteq> Undiscovered then st
      else (case buf of
              [] \<Rightarrow> st
            | c # rest \<Rightarrow>
                if c = cr then
                  (if rest \<noteq> [] \<and> hd rest = nl then st\<lparr>record_delimiter := CRLF\<rparr>
                   else st\<lparr>record_delimiter := CR\<rparr>)
                else if c = nl then st\<lparr>record_delimiter := LF\<rparr>
                else st))"

text \<open>\<^verbatim>\<open>__isRecordDelimiter(chr, buf, pos)\<close>: the length of the record delimiter at \<open>pos\<close>, or 0.\<close>

definition isRecordDelimiter :: "ParserState \<Rightarrow> string \<Rightarrow> nat" where
  "isRecordDelimiter st buf =
     (case buf of
        [] \<Rightarrow> 0
      | c # rest \<Rightarrow>
          (case record_delimiter st of
             Undiscovered \<Rightarrow> 0
           | LF \<Rightarrow> if c = nl then 1 else 0
           | CR \<Rightarrow> if c = cr then 1 else 0
           | CRLF \<Rightarrow> if c = cr \<and> rest \<noteq> [] \<and> hd rest = nl then 2 else 0))"

text \<open>\<^verbatim>\<open>isRecordEmpty\<close>: every field of the record is blank.\<close>

definition isRecordEmpty :: "string list \<Rightarrow> bool" where
  "isRecordEmpty r = list_all (\<lambda>f. trim f = []) r"

text \<open>\<^verbatim>\<open>__onField\<close>: the field read so far joins the record.\<close>

definition onField :: "ParserState \<Rightarrow> ParserState" where
  "onField st = st\<lparr>rec := rec st @ [field st], field := [], wasQuoting := False\<rparr>"

text \<open>
  \<^verbatim>\<open>__onRecord\<close>: with \<^verbatim>\<open>skip_lines_with_empty_values\<close>, a record all of whose
  fields are blank is dropped; any other record is pushed, whatever its length
  (\<^verbatim>\<open>relax_column_count\<close>).
\<close>

definition onRecord :: "ParserState \<Rightarrow> ParserState" where
  "onRecord st =
     (if isRecordEmpty (rec st) then st\<lparr>rec := []\<rparr>
      else st\<lparr>records := records st @ [rec st], rec := []\<rparr>)"

text \<open>
  The loop of \<^verbatim>\<open>__parse\<close> over the buffer. In a quoted field two quotes stand for
  one; a quote closes the field when the end of the buffer, a zero byte, a delimiter
  or a record delimiter follows, and is an error otherwise; a quote inside an
  unquoted field that has characters already is an error.
\<close>

fun parse_loop :: "ParserState \<Rightarrow> string \<Rightarrow> CsvErrorCode + ParserState" where
  "parse_loop st [] = Inr st"
| "parse_loop st0 (chr # rest) =
     (let st = (if quoting st0 then st0 else autoDiscoverRecordDelimiter st0 (chr # rest))
      in if quoting st \<and> chr = quote \<and> rest \<noteq> [] \<and> hd rest = quote then
           parse_loop (st\<lparr>field := field st @ [quote]\<rparr>) (tl rest)
         else if chr = quote then
           (if quoting st then
              (let st' = autoDiscoverRecordDelimiter st rest
               in if rest = [] \<or> hd rest = CHR 0x00 \<or> hd rest = delimiter
                     \<or> isRecordDelimiter st' rest \<noteq> 0
                  then parse_loop (st'\<lparr>quoting := False, wasQuoting := True\<rparr>) rest
                  else Inl CSV_INVALID_CLOSING_QUOTE)
            else if field st \<noteq> [] then Inl INVALID_OPENING_QUOTE
            else parse_loop (st\<lparr>quoting := True\<rparr>) rest)
         else if quoting st then
           parse_loop (st\<lparr>field := field st @ [chr]\<rparr>) rest
         else if isRecordDelimiter st (chr # rest) \<noteq> 0 then
           parse_loop (onRecord (onField st)) (drop (isRecordDelimiter st (chr # rest) - 1) rest)
         else if chr = delimiter then
           parse_loop (onField st) rest
         else
           parse_loop (st\<lparr>field := field st @ [chr]\<rparr>) rest)"

text \<open>
  The end of the buffer: an open quote is an error; a last line with characters, or
  with a closed quote, is a record.
\<close>

definition parse_end :: "ParserState \<Rightarrow> CsvErrorCode + ParserState" where
  "parse_end st =
     (if quoting st then Inl CSV_QUOTE_NOT_CLOSED
      else if wasQuoting st \<or> rec st \<noteq> [] \<or> field st \<noteq> [] then Inr (onRecord (onField st))
      else Inr st)"

definition csvparse :: "string \<Rightarrow> CsvErrorCode + string list list" where
  "csvparse s =
     (case parse_loop initState s of
        Inl e \<Rightarrow> Inl e
      | Inr st \<Rightarrow> (case parse_end st of Inl e \<Rightarrow> Inl e | Inr st' \<Rightarrow> Inr (records st')))"

subsection \<open>Numbers of the runtime\<close>

text \<open>
  \<^verbatim>\<open>Number(s)\<close> and the unary \<^verbatim>\<open>+s\<close> convert a string to a number
  (\<^verbatim>\<open>StringToNumber\<close> of ECMAScript): the value of the string as a numeric literal,
  rounded to the nearest double, and \<^verbatim>\<open>NaN\<close> when the string is no such literal.
  A double is modelled by its value, a rational; the two zeros are one value, which
  neither the comparisons nor \<^verbatim>\<open>isNaN\<close> tell apart.
\<close>

datatype number = NaN | MinusInfinity | Finite rat | Infinity

fun less_number :: "number \<Rightarrow> number \<Rightarrow> bool" where
  "less_number (Finite a) (Finite b) = (a < b)"
| "less_number MinusInfinity (Finite b) = True"
| "less_number MinusInfinity Infinity = True"
| "less_number (Finite a) Infinity = True"
| "less_number x y = False"

definition isNaN :: "number \<Rightarrow> bool" where
  "isNaN x = (x = NaN)"

definition pow_int :: "rat \<Rightarrow> int \<Rightarrow> rat" where
  "pow_int b e = (if 0 \<le> e then b ^ nat e else 1 / b ^ nat (- e))"

text \<open>The number of binary digits of a positive integer.\<close>

function bit_length :: "int \<Rightarrow> int" where
  "bit_length n = (if 0 < n then bit_length (n div 2) + 1 else 0)"
  by pat_completeness auto
termination
  by (relation "measure nat") auto

text \<open>The exponent \<open>e\<close> with \<open>2 ^ e \<le> a < 2 ^ (e + 1)\<close>, for a positive \<open>a\<close>.\<close>

definition floor_log2 :: "rat \<Rightarrow> int" where
  "floor_log2 a =
     (let (p, q) = quotient_of a;
          e0 = bit_length p - bit_length q
      in if pow_int 2 e0 \<le> a then e0 else e0 - 1)"

definition round_half_even :: "rat \<Rightarrow> int" where
  "round_half_even m =
     (let n = \<lfloor>m\<rfloor>; d = m - of_int n
      in if d < 1 / 2 then n
         else if 1 / 2 < d then n + 1
         else if even n then n else n + 1)"

text \<open>
  Rounding to binary64, to nearest and ties to even: 53 bits of mantissa, the
  smallest exponent \<open>- 1022\<close>, and infinity from \<open>2 ^ 1024\<close> on.
\<close>

definition to_double :: "rat \<Rightarrow> number" where
  "to_double q =
     (if q = 0 then Finite 0
      else
        (let a = \<bar>q\<bar>;
             e = max (floor_log2 a) (- 1022);
             ulp = pow_int 2 (e - 52);
             r = of_int (round_half_even (a / ulp)) * ulp
         in if pow_int 2 1024 \<le> r then (if 0 < q then Infinity else MinusInfinity)
            else Finite (if 0 < q then r else - r)))"

definition digit_value :: "char \<Rightarrow> int option" where
  "digit_value c =
     (let n = (of_char c :: int)
      in if 48 \<le> n \<and> n \<le> 57 then Some (n - 48)
         else if 97 \<le> n \<and> n \<le> 102 then Some (n - 87)
         else if 65 \<le> n \<and> n \<le> 70 then Some (n - 55)
         else None)"

definition isDecimalDigit :: "char \<Rightarrow> bool" where
  "isDecimalDigit c = (48 \<le> (of_char c :: int) \<and> (of_char c :: int) \<le> 57)"

fun digits_acc :: "int \<Rightarrow> int \<Rightarrow> string \<Rightarrow> int option" where
  "digits_acc b acc [] = Some acc"
| "digits_acc b acc (c # cs) =
     (case digit_value c of
        None \<Rightarrow> None
      | Some d \<Rightarrow> if d < b then digits_acc b (acc * b + d) cs else None)"

text \<open>The value of a non-empty string of digits in base \<open>b\<close>.\<close>

definition digits_value :: "int \<Rightarrow> string \<Rightarrow> int option" where
  "digits_value b s = (if s = [] then None else digits_acc b 0 s)"

text \<open>\<^verbatim>\<open>SignedInteger\<close>: the digits of an exponent, with an optional sign.\<close>

definition SignedInteger :: "string \<Rightarrow> int option" where
  "SignedInteger s =
     (case s of
        [] \<Rightarrow> None
      | c # cs \<Rightarrow>
          if c = CHR ''+'' then digits_value 10 cs
          else if c = CHR ''-'' then map_option uminus (digits_value 10 cs)
          else digits_value 10 s)"

definition ExponentPart :: "string \<Rightarrow> int option" where
  "ExponentPart s =
     (case s of
        [] \<Rightarrow> Some 0
      | c # cs \<Rightarrow> if c = CHR ''e'' \<or> c = CHR ''E'' then SignedInteger cs else None)"

text \<open>
  \<^verbatim>\<open>StrUnsignedDecimalLiteral\<close> but \<^verbatim>\<open>Infinity\<close>: digits, an optional point and
  digits, an optional exponent, with a digit before or after the point.
\<close>

definition StrUnsignedDecimalLiteral :: "string \<Rightarrow> rat option" where
  "StrUnsignedDecimalLiteral s =
     (let ip = takeWhile isDecimalDigit s;
          r1 = dropWhile isDecimalDigit s;
          fp = (case r1 of [] \<Rightarrow> []
                | c # cs \<Rightarrow> if c = CHR ''.'' then takeWhile isDecimalDigit cs else []);
          r2 = (case r1 of [] \<Rightarrow> []
                | c # cs \<Rightarrow> if c = CHR ''.'' then dropWhile isDecimalDigit cs else r1)
      in if ip = [] \<and> fp = [] then None
         else (case (digits_value 10 (ip @ fp), ExponentPart r2) of
                 (Some m, Some e) \<Rightarrow> Some (of_int m * pow_int 10 (e - int (length fp)))
               | _ \<Rightarrow> None))"

definition StrDecimalLiteral :: "string \<Rightarrow> number" where
  "StrDecimalLiteral s =
     (let neg = (s \<noteq> [] \<and> hd s = CHR ''-'');
          u = (if s \<noteq> [] \<and> (hd s = CHR ''-'' \<or> hd s = CHR ''+'') then tl s else s)
      in if u = ''Infinity'' then (if neg then MinusInfinity else Infinity)
         else (case StrUnsignedDecimalLiteral u of
                 None \<Rightarrow> NaN
               | Some v \<Rightarrow> to_double (if neg then - v else v)))"

text \<open>\<^verbatim>\<open>NonDecimalIntegerLiteral\<close>: \<^verbatim>\<open>0x\<close>, \<^verbatim>\<open>0o\<close> or \<^verbatim>\<open>0b\<close> (in either case) and digits.\<close>

definition NonDecimalBase :: "string \<Rightarrow> int option" where
  "NonDecimalBase s =
     (if take 2 s = ''0x'' \<or> take 2 s = ''0X'' then Some 16
      else if take 2 s = ''0o'' \<or> take 2 s = ''0O'' then Some 8
      else if take 2 s = ''0b'' \<or> take 2 s = ''0B'' then Some 2
      else None)"

definition Number :: "string \<Rightarrow> number" where
  "Number s =
     (let t = trim s
      in if t = [] then Finite 0
         else (case NonDecimalBase t of
                 Some b \<Rightarrow> (case digits_value b (drop 2 t) of
                              None \<Rightarrow> NaN
                            | Some n \<Rightarrow> to_double (of_int n))
               | None \<Rightarrow> StrDecimalLiteral t))"

subsection \<open>Tags\<close>

datatype Type = Schedule | Semver | Match | Edge | Ref | Raw | Sha

text \<open>The string of each member of the enumeration \<^verbatim>\<open>Type\<close>.\<close>

fun Type_value :: "Type \<Rightarrow> string" where
  "Type_value Schedule = ''schedule''"
| "Type_value Semver = ''semver''"
| "Type_value Match = ''match''"
| "Type_value Edge = ''edge''"
| "Type_value Ref = ''ref''"
| "Type_value Raw = ''raw''"
| "Type_value Sha = ''sha''"

text \<open>\<^verbatim>\<open>Object.values(Type)\<close>, and the member a string is the value of, if any.\<close>

definition Type_values :: "Type list" where
  "Type_values = [Schedule, Semver, Match, Edge, Ref, Raw, Sha]"

definition Type_of :: "string \<Rightarrow> Type option" where
  "Type_of v = find (\<lambda>t. Type_value t = v) Type_values"

text \<open>The values of the enumerations \<^verbatim>\<open>RefEvent\<close> and \<^verbatim>\<open>ShaFormat\<close>.\<close>

definition RefEvent_values :: "string list" where
  "RefEvent_values = [''branch'', ''tag'', ''pr'']"

definition ShaFormat_values :: "string list" where
  "ShaFormat_values = [''short'', ''long'']"

text \<open>
  The class \<^verbatim>\<open>Tag\<close>: \<^verbatim>\<open>type\<close> is optional, and undefined in a new tag; \<^verbatim>\<open>attrs\<close> is
  a dictionary from strings to strings, empty in a new tag.
\<close>

record Tag =
  type :: "Type option"
  attrs :: "string \<rightharpoonup> string"

definition new_Tag :: Tag where
  "new_Tag = \<lparr>type = None, attrs = Map.empty\<rparr>"

fun DefaultPriorities :: "Type \<Rightarrow> string" where
  "DefaultPriorities Schedule = ''1000''"
| "DefaultPriorities Semver = ''900''"
| "DefaultPriorities Match = ''800''"
| "DefaultPriorities Edge = ''700''"
| "DefaultPriorities Ref = ''600''"
| "DefaultPriorities Raw = ''200''"
| "DefaultPriorities Sha = ''100''"

text \<open>
  \<^verbatim>\<open>tag.attrs[key] = value\<close>. The dictionary is a plain object: the key
  \<^verbatim>\<open>__proto__\<close> names the accessor it inherits, whose setter ignores a string, so that
  assignment stores nothing.
\<close>

definition set_attr :: "Tag \<Rightarrow> string \<Rightarrow> string \<Rightarrow> Tag" where
  "set_attr tag key v =
     (if key = ''__proto__'' then tag else tag\<lparr>attrs := (attrs tag)(key \<mapsto> v)\<rparr>)"

text \<open>\<^verbatim>\<open>tag.attrs.hasOwnProperty(key)\<close>.\<close>

definition hasOwnProperty :: "Tag \<Rightarrow> string \<Rightarrow> bool" where
  "hasOwnProperty tag key = (attrs tag key \<noteq> None)"

text \<open>\<^verbatim>\<open>if (!tag.attrs.hasOwnProperty(key)) tag.attrs[key] = value\<close>.\<close>

definition set_default :: "Tag \<Rightarrow> string \<Rightarrow> string \<Rightarrow> Tag" where
  "set_default tag key v = (if hasOwnProperty tag key then tag else set_attr tag key v)"

subsection \<open>Parse\<close>

datatype error =
    Error string
  | CsvError CsvErrorCode
  | TypeError string

text \<open>
  The body of the loop over the fields (lines 93 to 114). \<^verbatim>\<open>split('=', 2)\<close> gives
  one part when the field has no \<^verbatim>\<open>=\<close> and the first two parts otherwise.
\<close>

definition parse_field :: "Tag \<Rightarrow> string \<Rightarrow> error + Tag" where
  "parse_field tag fld =
     (case split fld (CHR ''='') 2 of
        [] \<Rightarrow> Inl (TypeError ''Cannot read property trim of undefined'')
      | [p0] \<Rightarrow> Inr (set_attr tag ''value'' (trim p0))
      | p0 # p1 # ps \<Rightarrow>
          (let key = toLowerCase (trim p0); v = trim p1
           in if key = ''type'' then
                (case Type_of v of
                   None \<Rightarrow> Inl (Error (''Unknown tag type attribute: '' @ v))
                 | Some t \<Rightarrow> Inr (tag\<lparr>type := Some t\<rparr>))
              else Inr (set_attr tag key v)))"

fun parse_fields :: "Tag \<Rightarrow> string list \<Rightarrow> error + Tag" where
  "parse_fields tag [] = Inr tag"
| "parse_fields tag (fld # flds) =
     (case parse_field tag fld of
        Inl e \<Rightarrow> Inl e
      | Inr tag' \<Rightarrow> parse_fields tag' flds)"

text \<open>The defaults and checks of each type (the \<^verbatim>\<open>switch\<close> of lines 120 to 195).\<close>

fun type_switch :: "string \<Rightarrow> Type \<Rightarrow> Tag \<Rightarrow> error + Tag" where
  "type_switch s Schedule tag = Inr (set_default tag ''pattern'' ''nightly'')"
| "type_switch s Semver tag =
     (if \<not> hasOwnProperty tag ''pattern'' then Inl (Error (''Missing pattern attribute for '' @ s))
      else Inr (set_default tag ''value'' []))"
| "type_switch s Match tag =
     (if \<not> hasOwnProperty tag ''pattern'' then Inl (Error (''Missing pattern attribute for '' @ s))
      else
        (let tag1 = set_default tag ''group'' ''0''
         in if isNaN (case attrs tag1 ''group'' of None \<Rightarrow> NaN | Some g \<Rightarrow> Number g)
            then Inl (Error (''Invalid match group for '' @ s))
            else Inr (set_default tag1 ''value'' [])))"
| "type_switch s Edge tag = Inr (set_default tag ''branch'' [])"
| "type_switch s Ref tag =
     (if \<not> hasOwnProperty tag ''event'' then Inl (Error (''Missing event attribute for '' @ s))
      else if attrs tag ''event'' \<notin> set (map Some RefEvent_values)
      then Inl (Error (''Invalid event for '' @ s))
      else if attrs tag ''event'' = Some ''pr'' \<and> \<not> hasOwnProperty tag ''prefix''
      then Inr (set_attr tag ''prefix'' ''pr-'')
      else Inr tag)"
| "type_switch s Raw tag =
     (if \<not> hasOwnProperty tag ''value'' then Inl (Error (''Missing value attribute for '' @ s))
      else Inr tag)"
| "type_switch s Sha tag =
     (let tag1 = set_default tag ''prefix'' ''sha-'';
          tag2 = set_default tag1 ''format'' ''short''
      in if attrs tag2 ''format'' \<notin> set (map Some ShaFormat_values)
         then Inl (Error (''Invalid format for '' @ s))
         else Inr tag2)"

text \<open>The defaults and the check of every type (lines 197 to 207).\<close>

definition common_defaults :: "Type \<Rightarrow> Tag \<Rightarrow> error + Tag" where
  "common_defaults t tag =
     (let tag1 = set_default tag ''enable'' ''true'';
          tag2 = set_default tag1 ''priority'' (DefaultPriorities t)
      in if attrs tag2 ''enable'' \<notin> set [Some ''true'', Some ''false'']
         then Inl (Error (''Invalid value for enable attribute: ''
                          @ (case attrs tag2 ''enable'' of None \<Rightarrow> ''undefined'' | Some v \<Rightarrow> v)))
         else Inr tag2)"

text \<open>What follows the loop over the fields (lines 116 to 207).\<close>

definition finish :: "string \<Rightarrow> Tag \<Rightarrow> error + Tag" where
  "finish s tag =
     (let t = (case type tag of None \<Rightarrow> Raw | Some t \<Rightarrow> t);
          tag0 = tag\<lparr>type := Some t\<rparr>
      in case type_switch s t tag0 of
           Inl e \<Rightarrow> Inl e
         | Inr tag1 \<Rightarrow> common_defaults t tag1)"

text \<open>
  The fields of a line: the first record of the CSV parser. When the parser returns
  no record, \<^verbatim>\<open>fields\<close> is undefined and the loop over it raises a \<^verbatim>\<open>TypeError\<close>.
\<close>

definition fields_of :: "string \<Rightarrow> error + string list" where
  "fields_of s =
     (case csvparse s of
        Inl c \<Rightarrow> Inl (CsvError c)
      | Inr [] \<Rightarrow> Inl (TypeError ''fields is not iterable'')
      | Inr (flds # others) \<Rightarrow> Inr flds)"

definition Parse :: "string \<Rightarrow> error + Tag" where
  "Parse s =
     (case fields_of s of
        Inl e \<Rightarrow> Inl e
      | Inr flds \<Rightarrow>
          (case parse_fields new_Tag flds of
             Inl e \<Rightarrow> Inl e
           | Inr tag \<Rightarrow> finish s tag))"

subsection \<open>Transform\<close>

text \<open>\<^verbatim>\<open>Number(tag.attrs['priority'])\<close>; the number of \<^verbatim>\<open>undefined\<close> is \<^verbatim>\<open>NaN\<close>.\<close>

definition priority :: "Tag \<Rightarrow> number" where
  "priority tag = (case attrs tag ''priority'' of None \<Rightarrow> NaN | Some p \<Rightarrow> Number p)"

text \<open>The comparison function given to \<^verbatim>\<open>sort\<close> (lines 67 to 75).\<close>

definition compare_priority :: "Tag \<Rightarrow> Tag \<Rightarrow> int" where
  "compare_priority tag1 tag2 =
     (if less_number (priority tag1) (priority tag2) then 1
      else if less_number (priority tag2) (priority tag1) then - 1
      else 0)"

text \<open>
  \<^verbatim>\<open>Array.prototype.sort(comparefn)\<close>. For a consistent comparison function
  ECMAScript fixes the result: the stable sort. The model is the insertion sort that
  moves an element to the right past those it compares greater than. For a
  comparison function that is not consistent (here: when a priority is \<^verbatim>\<open>NaN\<close>) the
  order is left to the implementation, and the model is one such implementation.
\<close>

fun insert_cmp :: "('a \<Rightarrow> 'a \<Rightarrow> int) \<Rightarrow> 'a \<Rightarrow> 'a list \<Rightarrow> 'a list" where
  "insert_cmp comparefn x [] = [x]"
| "insert_cmp comparefn x (y # ys) =
     (if 0 < comparefn x y then y # insert_cmp comparefn x ys else x # y # ys)"

fun sort_cmp :: "('a \<Rightarrow> 'a \<Rightarrow> int) \<Rightarrow> 'a list \<Rightarrow> 'a list" where
  "sort_cmp comparefn [] = []"
| "sort_cmp comparefn (x # xs) = insert_cmp comparefn x (sort_cmp comparefn xs)"

text \<open>The lines used when \<^verbatim>\<open>inputs\<close> is empty (lines 54 to 62).\<close>

definition default_inputs :: "string list" where
  "default_inputs = [''type=schedule'', ''type=ref,event=branch'', ''type=ref,event=tag'',
                     ''type=ref,event=pr'']"

text \<open>The loop that parses every input (lines 64 to 66); the first exception ends it.\<close>

fun parse_inputs :: "Tag list \<Rightarrow> string list \<Rightarrow> error + Tag list" where
  "parse_inputs tags [] = Inr tags"
| "parse_inputs tags (input # inputs) =
     (case Parse input of
        Inl e \<Rightarrow> Inl e
      | Inr tag \<Rightarrow> parse_inputs (tags @ [tag]) inputs)"

text \<open>
  \<^verbatim>\<open>Transform\<close> returns the sorted tags. It also writes them to the log of the action,
  one line each, which is no part of the value returned.
\<close>

definition Transform :: "string list \<Rightarrow> error + Tag list" where
  "Transform inputs =
     (let inputs' = (if length inputs = 0 then default_inputs else inputs)
      in case parse_inputs [] inputs' of
           Inl e \<Rightarrow> Inl e
         | Inr tags \<Rightarrow> Inr (sort_cmp compare_priority tags))"

subsection \<open>The tokens of a line\<close>

text \<open>
  What the loop over the fields reads in one field: its key (\<^verbatim>\<open>value\<close> for a field
  without \<^verbatim>\<open>=\<close>) and its value. \<open>supplied flds k\<close> is the value of the last field
  of \<open>flds\<close> with the key \<open>k\<close>, if there is one.
\<close>

definition token_key :: "string \<Rightarrow> string" where
  "token_key fld =
     (case split fld (CHR ''='') 2 of
        p0 # p1 # ps \<Rightarrow> toLowerCase (trim p0)
      | _ \<Rightarrow> ''value'')"

definition token_value :: "string \<Rightarrow> string" where
  "token_value fld =
     (case split fld (CHR ''='') 2 of
        p0 # p1 # ps \<Rightarrow> trim p1
      | [p0] \<Rightarrow> trim p0
      | [] \<Rightarrow> [])"

fun supplied :: "string list \<Rightarrow> string \<Rightarrow> string option" where
  "supplied [] k = None"
| "supplied (fld # flds) k =
     (case supplied flds k of
        Some v \<Rightarrow> Some v
      | None \<Rightarrow> if token_key fld = k then Some (token_value fld) else None)"

subsection \<open>Reading a result\<close>

text \<open>The attribute \<open>k\<close> and the priority of the tag that \<^verbatim>\<open>Parse\<close> returned, if it returned one.\<close>

definition attr :: "error + Tag \<Rightarrow> string \<Rightarrow> error + string option" where
  "attr r k = map_sum id (\<lambda>tag. attrs tag k) r"

definition priority_of :: "error + Tag \<Rightarrow> error + number" where
  "priority_of r = map_sum id priority r"

subsection \<open>Blank states of the CSV parser\<close>

text \<open>
  A state of the CSV parser that has read nothing but blank fields: it is outside a
  quote, has pushed no record, and the fields of its current record are blank.
\<close>

definition blank_state :: "ParserState \<Rightarrow> bool" where
  "blank_state st \<longleftrightarrow>
     \<not> quoting st \<and> records st = [] \<and> isRecordEmpty (rec st) \<and> trim (field st) = []"

text \<open>The error that \<^verbatim>\<open>Parse\<close> raised, if it raised one.\<close>

definition error_of :: "error + Tag \<Rightarrow> error option" where
  "error_of r = (case r of Inl e \<Rightarrow> Some e | Inr tag \<Rightarrow> None)"

subsection \<open>The stages of Parse\<close>

text \<open>
  \<^verbatim>\<open>Parse\<close> up to the end of the \<^verbatim>\<open>switch\<close> (lines 86 to 195): what it has before the
  defaults and the check of every type. \<open>kind_of tag\<close> is the type of the tag after
  line 118.
\<close>

definition kind_of :: "Tag \<Rightarrow> Type" where
  "kind_of tag = (case type tag of None \<Rightarrow> Raw | Some t \<Rightarrow> t)"

definition Parse_switch :: "string \<Rightarrow> error + Tag" where
  "Parse_switch s =
     (case fields_of s of
        Inl e \<Rightarrow> Inl e
      | Inr flds \<Rightarrow>
          (case parse_fields new_Tag flds of
             Inl e \<Rightarrow> Inl e
           | Inr tag \<Rightarrow> type_switch s (kind_of tag) (tag\<lparr>type := Some (kind_of tag)\<rparr>)))"

subsection \<open>The order of the tags\<close>

text \<open>
  \<open>priority_desc a b\<close>: the tag \<open>a\<close> may stand before the tag \<open>b\<close> in a list sorted by
  descending priority: their priorities are equal numbers, or that of \<open>a\<close> is the greater.
\<close>

definition priority_desc :: "Tag \<Rightarrow> Tag \<Rightarrow> bool" where
  "priority_desc a b = (priority a = priority b \<or> less_number (priority b) (priority a))"

section \<open>Properties\<close>

subsection \<open>The loop over the fields\<close>

lemma split_all_not_Nil: "split_all sep s \<noteq> []"
  by (induction s) (auto split: list.splits)

lemma split_all_no_sep: "sep \<notin> set s \<Longrightarrow> split_all sep s = [s]"
  by (induction s) auto

lemma split_all_sep: "sep \<in> set s \<Longrightarrow> \<exists>p0 p1 ps. split_all sep s = p0 # p1 # ps"
proof (induction s)
  case Nil
  then show ?case by simp
next
  case (Cons c cs)
  show ?case
  proof (cases "c = sep")
    case True
    then show ?thesis using split_all_not_Nil[of sep cs] by (cases "split_all sep cs") auto
  next
    case False
    with Cons obtain p0 p1 ps where "split_all sep cs = p0 # p1 # ps" by auto
    with False show ?thesis by simp
  qed
qed

lemma split_2_positional: "CHR ''='' \<notin> set fld \<Longrightarrow> split fld (CHR ''='') 2 = [fld]"
  by (simp add: split_def split_all_no_sep)

lemma split_2_pair: "CHR ''='' \<in> set fld \<Longrightarrow> \<exists>p0 p1. split fld (CHR ''='') 2 = [p0, p1]"
  using split_all_sep[of "CHR ''=''" fld] by (auto simp: split_def)

lemma toLowerCase_type: "toLowerCase ''value'' \<noteq> ''type''"
  by (simp add: toLowerCase_def toLowerChar_def)

lemma parse_field_token:
  "parse_field tag fld =
     (if token_key fld = ''type'' then
        (case Type_of (token_value fld) of
           None \<Rightarrow> Inl (Error (''Unknown tag type attribute: '' @ token_value fld))
         | Some t \<Rightarrow> Inr (tag\<lparr>type := Some t\<rparr>))
      else Inr (set_attr tag (token_key fld) (token_value fld)))"
proof (cases "CHR ''='' \<in> set fld")
  case True
  then obtain p0 p1 where "split fld (CHR ''='') 2 = [p0, p1]" using split_2_pair by blast
  then show ?thesis
    by (simp add: parse_field_def token_key_def token_value_def Let_def split: option.splits)
next
  case False
  then show ?thesis
    by (simp add: parse_field_def token_key_def token_value_def split_2_positional)
qed

lemma parse_fields_append:
  "parse_fields tag (xs @ ys) =
     (case parse_fields tag xs of Inl e \<Rightarrow> Inl e | Inr tag' \<Rightarrow> parse_fields tag' ys)"
  by (induction xs arbitrary: tag) (auto split: sum.splits)

lemma parse_fields_attrs:
  "parse_fields tag flds = Inr tag' \<Longrightarrow> k \<noteq> ''__proto__'' \<Longrightarrow> k \<noteq> ''type'' \<Longrightarrow>
   attrs tag' k = (case supplied flds k of None \<Rightarrow> attrs tag k | Some v \<Rightarrow> Some v)"
proof (induction flds arbitrary: tag)
  case Nil
  then show ?case by simp
next
  case (Cons fld flds)
  from Cons.prems(1) obtain tag1 where
    step: "parse_field tag fld = Inr tag1" and rest: "parse_fields tag1 flds = Inr tag'"
    by (auto split: sum.splits)
  have "attrs tag1 k = (if token_key fld = k then Some (token_value fld) else attrs tag k)"
    using step Cons.prems(2,3)
    by (auto simp: parse_field_token set_attr_def split: if_splits option.splits)
  with Cons.IH[OF rest Cons.prems(2,3)] show ?case
    by (auto split: option.splits)
qed

lemma parse_fields_type:
  "parse_fields tag flds = Inr tag' \<Longrightarrow>
   type tag' = (case supplied flds ''type'' of None \<Rightarrow> type tag | Some v \<Rightarrow> Type_of v)"
proof (induction flds arbitrary: tag)
  case Nil
  then show ?case by simp
next
  case (Cons fld flds)
  from Cons.prems(1) obtain tag1 where
    step: "parse_field tag fld = Inr tag1" and rest: "parse_fields tag1 flds = Inr tag'"
    by (auto split: sum.splits)
  have "type tag1 = (if token_key fld = ''type'' then Type_of (token_value fld) else type tag)"
    using step
    by (auto simp: parse_field_token set_attr_def split: if_splits option.splits)
  with Cons.IH[OF rest] show ?case
    by (auto split: option.splits)
qed

lemma parse_fields_no_type_attr:
  "parse_fields tag flds = Inr tag' \<Longrightarrow> attrs tag' ''type'' = attrs tag ''type''"
proof (induction flds arbitrary: tag)
  case Nil
  then show ?case by simp
next
  case (Cons fld flds)
  from Cons.prems(1) obtain tag1 where
    step: "parse_field tag fld = Inr tag1" and rest: "parse_fields tag1 flds = Inr tag'"
    by (auto split: sum.splits)
  have "attrs tag1 ''type'' = attrs tag ''type''"
    using step
    by (auto simp: parse_field_token set_attr_def split: if_splits option.splits)
  with Cons.IH[OF rest] show ?case by simp
qed

subsection \<open>The CSV parser on a line without quotes and line breaks\<close>








subsection \<open>The CSV parser on a blank line\<close>

lemma trim_Nil_iff: "trim f = [] \<longleftrightarrow> (\<forall>c\<in>set f. isWhiteSpace c)"
proof
  assume "trim f = []"
  then have "dropWhile isWhiteSpace (rev (dropWhile isWhiteSpace f)) = []"
    by (simp add: trim_def)
  then have all: "\<forall>c\<in>set (dropWhile isWhiteSpace f). isWhiteSpace c"
    by simp
  have "dropWhile isWhiteSpace f = []"
  proof (cases "dropWhile isWhiteSpace f")
    case Nil
    then show ?thesis .
  next
    case (Cons x xs)
    then have "\<not> isWhiteSpace x" using hd_dropWhile[of isWhiteSpace f] by simp
    with all Cons show ?thesis by simp
  qed
  then show "\<forall>c\<in>set f. isWhiteSpace c" by simp
next
  assume "\<forall>c\<in>set f. isWhiteSpace c"
  then have "dropWhile isWhiteSpace f = []" by simp
  then show "trim f = []" by (simp add: trim_def del: dropWhile_eq_Nil_conv)
qed

lemma blank_state_autoDiscover:
  "blank_state st \<Longrightarrow> blank_state (autoDiscoverRecordDelimiter st buf)"
  by (auto simp: blank_state_def autoDiscoverRecordDelimiter_def split: list.splits)

lemma blank_state_onField: "blank_state st \<Longrightarrow> blank_state (onField st)"
  by (auto simp: blank_state_def onField_def isRecordEmpty_def trim_def)

lemma blank_state_onRecord: "blank_state st \<Longrightarrow> blank_state (onRecord st)"
  by (auto simp: blank_state_def onRecord_def isRecordEmpty_def)

lemma blank_state_append:
  "blank_state st \<Longrightarrow> isWhiteSpace c \<Longrightarrow> blank_state (st\<lparr>field := field st @ [c]\<rparr>)"
  by (auto simp: blank_state_def trim_Nil_iff)

lemma quote_not_blank: "\<not> isWhiteSpace quote" "quote \<noteq> delimiter"
  by (simp_all add: isWhiteSpace_def quote_def delimiter_def)

lemma parse_loop_blank:
  "\<forall>c\<in>set s. c = delimiter \<or> isWhiteSpace c \<Longrightarrow> blank_state st \<Longrightarrow>
   \<exists>st'. parse_loop st s = Inr st' \<and> blank_state st'"
proof (induction "length s" arbitrary: s st rule: less_induct)
  case less
  show ?case
  proof (cases s)
    case Nil
    then show ?thesis using less.prems(2) by simp
  next
    case (Cons c rest)
    define st1 where "st1 = autoDiscoverRecordDelimiter st (c # rest)"
    have b1: "blank_state st1" using less.prems(2) by (simp add: st1_def blank_state_autoDiscover)
    have nq: "\<not> quoting st" "\<not> quoting st1" using less.prems(2) b1 by (simp_all add: blank_state_def)
    have c: "c = delimiter \<or> isWhiteSpace c" and cq: "c \<noteq> quote"
      using less.prems(1) Cons quote_not_blank by auto
    have rest: "\<forall>c\<in>set rest. c = delimiter \<or> isWhiteSpace c" using less.prems(1) Cons by simp
    have step: "parse_loop st s =
        (if isRecordDelimiter st1 (c # rest) \<noteq> 0 then
           parse_loop (onRecord (onField st1)) (drop (isRecordDelimiter st1 (c # rest) - 1) rest)
         else if c = delimiter then parse_loop (onField st1) rest
         else parse_loop (st1\<lparr>field := field st1 @ [c]\<rparr>) rest)"
      using nq cq by (simp add: Cons st1_def Let_def)
    show ?thesis
    proof (cases "isRecordDelimiter st1 (c # rest) \<noteq> 0")
      case True
      let ?r = "drop (isRecordDelimiter st1 (c # rest) - 1) rest"
      have "length ?r < length s" using Cons by simp
      moreover have "\<forall>c\<in>set ?r. c = delimiter \<or> isWhiteSpace c"
        using rest by (meson in_set_dropD)
      moreover have "blank_state (onRecord (onField st1))"
        using b1 by (simp add: blank_state_onField blank_state_onRecord)
      ultimately show ?thesis using less.hyps step True by simp
    next
      case False
      have len: "length rest < length s" using Cons by simp
      show ?thesis
      proof (cases "c = delimiter")
        case True
        then show ?thesis
          using less.hyps[OF len rest blank_state_onField[OF b1]] step False by simp
      next
        case nd: False
        with c have "isWhiteSpace c" by simp
        then show ?thesis
          using less.hyps[OF len rest blank_state_append[OF b1]] step False nd by simp
      qed
    qed
  qed
qed

lemma blank_state_init: "blank_state initState"
  by (simp add: blank_state_def initState_def isRecordEmpty_def trim_def)

lemma csvparse_blank:
  assumes "\<forall>c\<in>set s. c = delimiter \<or> isWhiteSpace c"
  shows "csvparse s = Inr []"
proof -
  obtain st' where loop: "parse_loop initState s = Inr st'" and b: "blank_state st'"
    using parse_loop_blank[OF assms blank_state_init] by blast
  have "blank_state (onRecord (onField st'))"
    using b by (simp add: blank_state_onField blank_state_onRecord)
  then show ?thesis
    using loop b by (simp add: csvparse_def parse_end_def blank_state_def)
qed

subsection \<open>The defaults and checks after the loop\<close>

lemma Parse_stages:
  "Parse s =
     (case Parse_switch s of
        Inl e \<Rightarrow> Inl e
      | Inr tag \<Rightarrow> common_defaults (kind_of tag) tag)"
proof -
  have "type_switch s k tag = Inr tag' \<Longrightarrow> type tag' = type tag" for k tag tag'
    by (cases k) (auto simp: set_default_def set_attr_def Let_def split: if_splits)
  then show ?thesis
    by (auto simp: Parse_def Parse_switch_def finish_def kind_of_def Let_def split: sum.splits)
qed

lemma Parse_after_loop:
  "fields_of s = Inr flds \<Longrightarrow> parse_fields new_Tag flds = Inr tag \<Longrightarrow>
   Parse_switch s = type_switch s (kind_of tag) (tag\<lparr>type := Some (kind_of tag)\<rparr>)"
  by (simp add: Parse_switch_def)

lemma type_switch_type: "type_switch s k tag = Inr tag' \<Longrightarrow> type tag' = type tag"
  by (cases k) (auto simp: set_default_def set_attr_def Let_def split: if_splits)

lemma type_switch_keeps:
  "type_switch s k tag = Inr tag' \<Longrightarrow> attrs tag key = Some v \<Longrightarrow> attrs tag' key = Some v"
  by (cases k) (auto simp: set_default_def set_attr_def hasOwnProperty_def Let_def split: if_splits)

lemma type_switch_enable:
  "type_switch s k tag = Inr tag' \<Longrightarrow> attrs tag' ''enable'' = attrs tag ''enable''"
  by (cases k) (auto simp: set_default_def set_attr_def hasOwnProperty_def Let_def split: if_splits)

lemma type_switch_priority:
  "type_switch s k tag = Inr tag' \<Longrightarrow> attrs tag' ''priority'' = attrs tag ''priority''"
  by (cases k) (auto simp: set_default_def set_attr_def hasOwnProperty_def Let_def split: if_splits)

lemma common_defaults_Inr:
  assumes "common_defaults k tag = Inr tag'"
  shows "type tag' = type tag"
    and "attrs tag' ''enable'' = Some (case attrs tag ''enable'' of None \<Rightarrow> ''true'' | Some v \<Rightarrow> v)"
    and "attrs tag' ''enable'' = Some ''true'' \<or> attrs tag' ''enable'' = Some ''false''"
    and "attrs tag' ''priority'' =
           Some (case attrs tag ''priority'' of None \<Rightarrow> DefaultPriorities k | Some p \<Rightarrow> p)"
    and "key \<noteq> ''enable'' \<Longrightarrow> key \<noteq> ''priority'' \<Longrightarrow> attrs tag' key = attrs tag key"
  using assms
  by (auto simp: common_defaults_def set_default_def set_attr_def hasOwnProperty_def Let_def
      split: if_splits option.splits)

lemma common_defaults_cases:
  "common_defaults k tag =
     (case attrs tag ''enable'' of
        None \<Rightarrow> Inr (set_default (set_attr tag ''enable'' ''true'') ''priority'' (DefaultPriorities k))
      | Some v \<Rightarrow>
          if v = ''true'' \<or> v = ''false''
          then Inr (set_default tag ''priority'' (DefaultPriorities k))
          else Inl (Error (''Invalid value for enable attribute: '' @ v)))"
  by (auto simp: common_defaults_def set_default_def set_attr_def hasOwnProperty_def Let_def
      split: option.splits)

lemma parse_fields_new_attrs:
  "parse_fields new_Tag flds = Inr tag \<Longrightarrow> k \<noteq> ''__proto__'' \<Longrightarrow> k \<noteq> ''type'' \<Longrightarrow>
   attrs tag k = supplied flds k"
  using parse_fields_attrs[of new_Tag flds tag k]
  by (auto simp: new_Tag_def split: option.splits)

lemma parse_fields_new_type:
  "parse_fields new_Tag flds = Inr tag \<Longrightarrow>
   type tag = (case supplied flds ''type'' of None \<Rightarrow> None | Some v \<Rightarrow> Type_of v)"
  using parse_fields_type[of new_Tag flds tag] by (auto simp: new_Tag_def split: option.splits)

subsection \<open>The numbers of the default priorities\<close>

lemma to_double_not_NaN: "to_double q \<noteq> NaN"
  by (simp add: to_double_def Let_def)

lemma bit_length_numeral:
  "bit_length (numeral n) = bit_length (numeral n div 2) + 1"
  "bit_length 1 = 1"
  "bit_length 0 = 0"
  by (simp_all add: bit_length.simps[of "numeral n"] bit_length.simps[of 1] bit_length.simps[of 0])

lemmas Number_eval =
  Number_def trim_def isWhiteSpace_def NonDecimalBase_def StrDecimalLiteral_def
  StrUnsignedDecimalLiteral_def isDecimalDigit_def digits_value_def digit_value_def
  ExponentPart_def SignedInteger_def pow_int_def Let_def

lemmas to_double_eval =
  to_double_def floor_log2_def bit_length_numeral pow_int_def round_half_even_def Let_def

lemma Number_DefaultPriorities:
  "Number ''1000'' = Finite 1000"
  "Number ''900'' = Finite 900"
  "Number ''800'' = Finite 800"
  "Number ''700'' = Finite 700"
  "Number ''600'' = Finite 600"
  "Number ''200'' = Finite 200"
  "Number ''100'' = Finite 100"
proof -
  have d: "to_double 1000 = Finite 1000" "to_double 900 = Finite 900" "to_double 800 = Finite 800"
    "to_double 700 = Finite 700" "to_double 600 = Finite 600" "to_double 200 = Finite 200"
    "to_double 100 = Finite 100"
    by (simp_all add: to_double_eval)
  show "Number ''1000'' = Finite 1000" by (simp add: Number_eval d)
  show "Number ''900'' = Finite 900" by (simp add: Number_eval d)
  show "Number ''800'' = Finite 800" by (simp add: Number_eval d)
  show "Number ''700'' = Finite 700" by (simp add: Number_eval d)
  show "Number ''600'' = Finite 600" by (simp add: Number_eval d)
  show "Number ''200'' = Finite 200" by (simp add: Number_eval d)
  show "Number ''100'' = Finite 100" by (simp add: Number_eval d)
qed

lemma Number_DefaultPriorities_not_NaN: "Number (DefaultPriorities k) \<noteq> NaN"
  by (cases k) (simp_all add: Number_DefaultPriorities)

lemma Number_small:
  "Number ''1'' = Finite 1" "Number ''2'' = Finite 2" "Number ''3'' = Finite 3"
  "Number ''x'' = NaN" "Number ''abc'' = NaN"
proof -
  have d: "to_double 1 = Finite 1" "to_double 2 = Finite 2" "to_double 3 = Finite 3"
    by (simp_all add: to_double_eval)
  show "Number ''1'' = Finite 1" by (simp add: Number_eval d)
  show "Number ''2'' = Finite 2" by (simp add: Number_eval d)
  show "Number ''3'' = Finite 3" by (simp add: Number_eval d)
  show "Number ''x'' = NaN" by (simp add: Number_eval)
  show "Number ''abc'' = NaN" by (simp add: Number_eval)
qed

subsection \<open>Evaluating Parse on a given line\<close>

lemmas csv_eval =
  fields_of_def csvparse_def parse_end_def onField_def onRecord_def isRecordEmpty_def
  autoDiscoverRecordDelimiter_def isRecordDelimiter_def initState_def quote_def delimiter_def
  cr_def nl_def trim_def isWhiteSpace_def Let_def

lemmas Parse_eval =
  Parse_def parse_field_def split_def toLowerCase_def toLowerChar_def trim_def isWhiteSpace_def
  Type_of_def Type_values_def set_attr_def set_default_def hasOwnProperty_def finish_def
  common_defaults_def new_Tag_def RefEvent_values_def ShaFormat_values_def Let_def

lemma fields_of_examples:
  "fields_of ''foo'' = Inr [''foo'']"
  "fields_of ''foo,'' = Inr [''foo'', []]"
  "fields_of ''foo,priority=abc'' = Inr [''foo'', ''priority=abc'']"
  by (simp_all add: csv_eval)

lemma Parse_foo:
  "Parse ''foo'' = Inr \<lparr>type = Some Raw,
     attrs = [''value'' \<mapsto> ''foo'', ''enable'' \<mapsto> ''true'', ''priority'' \<mapsto> ''200'']\<rparr>"
  by (simp add: Parse_eval fields_of_examples)

lemma Parse_foo_priority:
  "Parse ''foo,priority=abc'' = Inr \<lparr>type = Some Raw,
     attrs = [''value'' \<mapsto> ''foo'', ''priority'' \<mapsto> ''abc'', ''enable'' \<mapsto> ''true'']\<rparr>"
  by (simp add: Parse_eval fields_of_examples)

lemma supplied_examples:
  "supplied [''foo''] ''priority'' = None"
  "supplied [''foo'', ''priority=abc''] ''priority'' = Some ''abc''"
  by (simp_all add: token_key_def token_value_def split_def toLowerCase_def toLowerChar_def trim_def isWhiteSpace_def)

subsection \<open>From the tokens of a line to the result of Parse\<close>

lemmas token_eval =
  token_key_def token_value_def split_def toLowerCase_def toLowerChar_def trim_def
  isWhiteSpace_def

lemma supplied_None_iff: "supplied flds k = None \<longleftrightarrow> (\<forall>f\<in>set flds. token_key f \<noteq> k)"
  by (induction flds) (auto split: option.splits)

lemma supplied_last:
  "token_key tok = k \<Longrightarrow> \<forall>g\<in>set post. token_key g \<noteq> k \<Longrightarrow>
   supplied (pre @ tok # post) k = Some (token_value tok)"
proof (induction pre)
  case Nil
  then show ?case using supplied_None_iff[of post k] by simp
next
  case (Cons a pre)
  then show ?case by simp
qed

lemma token_positional:
  "CHR ''='' \<notin> set tok \<Longrightarrow> token_key tok = ''value'' \<and> token_value tok = trim tok"
  by (simp add: token_key_def token_value_def split_2_positional)

lemma parse_fields_no_type:
  "\<forall>f\<in>set flds. token_key f \<noteq> ''type'' \<Longrightarrow> \<exists>tag'. parse_fields tag flds = Inr tag'"
  by (induction flds arbitrary: tag) (auto simp: parse_field_token)

text \<open>What a successful \<^verbatim>\<open>Parse\<close> went through.\<close>

lemma Parse_Inr_stages:
  assumes "Parse s = Inr t" and "fields_of s = Inr flds"
  obtains tag tag1 where
    "parse_fields new_Tag flds = Inr tag"
    "type_switch s (kind_of tag) (tag\<lparr>type := Some (kind_of tag)\<rparr>) = Inr tag1"
    "common_defaults (kind_of tag) tag1 = Inr t"
    "type t = Some (kind_of tag)"
proof -
  from assms obtain tag where loop: "parse_fields new_Tag flds = Inr tag"
    by (auto simp: Parse_def split: sum.splits)
  let ?k = "kind_of tag"
  from assms loop obtain tag1 where
    sw: "type_switch s ?k (tag\<lparr>type := Some ?k\<rparr>) = Inr tag1" and
    cd: "common_defaults ?k tag1 = Inr t"
    by (auto simp: Parse_def finish_def kind_of_def Let_def split: sum.splits)
  have "type t = Some ?k"
    using type_switch_type[OF sw] common_defaults_Inr(1)[OF cd] by simp
  with loop sw cd show ?thesis using that by blast
qed

lemma Parse_switch_Inr_attrs:
  assumes "fields_of s = Inr flds" and "Parse_switch s = Inr tag1"
    and "key = ''enable'' \<or> key = ''priority''"
  shows "attrs tag1 key = supplied flds key"
proof -
  from assms(1,2) obtain tag where loop: "parse_fields new_Tag flds = Inr tag"
    and sw: "type_switch s (kind_of tag) (tag\<lparr>type := Some (kind_of tag)\<rparr>) = Inr tag1"
    by (auto simp: Parse_switch_def split: sum.splits)
  have "attrs tag1 key = attrs tag key"
    using assms(3) type_switch_enable[OF sw] type_switch_priority[OF sw] by auto
  moreover have "attrs tag key = supplied flds key"
    using assms(3) by (intro parse_fields_new_attrs[OF loop]) auto
  ultimately show ?thesis by simp
qed

lemma fields_of_enable_examples:
  "fields_of ''foo,enable=no'' = Inr [''foo'', ''enable=no'']"
  "fields_of ''type=ref,enable=no'' = Inr [''type=ref'', ''enable=no'']"
  "fields_of ''type=ref,event=branch,enable=no'' = Inr [''type=ref'', ''event=branch'', ''enable=no'']"
  "fields_of ''type=ref,event=pr'' = Inr [''type=ref'', ''event=pr'']"
  by (simp_all add: csv_eval)

lemmas Parse_switch_eval =
  Parse_switch_def kind_of_def parse_field_def split_def toLowerCase_def toLowerChar_def trim_def
  isWhiteSpace_def Type_of_def Type_values_def set_attr_def set_default_def hasOwnProperty_def
  new_Tag_def RefEvent_values_def ShaFormat_values_def Let_def

lemma fields_of_raw_examples:
  "fields_of ''x=1'' = Inr [''x=1'']"
  "fields_of ''a,b'' = Inr [''a'', ''b'']"
  "fields_of ''type=raw'' = Inr [''type=raw'']"
  by (simp_all add: csv_eval)

lemma Parse_raw_missing_value:
  assumes "fields_of s = Inr flds" and "parse_fields new_Tag flds = Inr tag"
    and "kind_of tag = Raw" and "supplied flds ''value'' = None"
  shows "Parse s = Inl (Error (''Missing value attribute for '' @ s))"
proof -
  have "attrs tag ''value'' = None"
    using parse_fields_new_attrs[OF assms(2), of "''value''"] assms(4) by simp
  then have "Parse_switch s = Inl (Error (''Missing value attribute for '' @ s))"
    using Parse_after_loop[OF assms(1,2)] assms(3) by (simp add: hasOwnProperty_def)
  then show ?thesis by (simp add: Parse_stages)
qed

subsection \<open>A field without \<^verbatim>\<open>=\<close> and the value of the tag\<close>





subsection \<open>The loop over the inputs\<close>

lemma parse_inputs_Inr:
  "parse_inputs acc inputs = Inr tags \<longleftrightarrow>
     (\<exists>ts. tags = acc @ ts \<and> map Parse inputs = map Inr ts)"
proof (induction inputs arbitrary: acc)
  case Nil
  then show ?case by auto
next
  case (Cons input inputs)
  show ?case
  proof (cases "Parse input")
    case (Inl e)
    then show ?thesis by (auto simp: map_eq_Cons_conv)
  next
    case (Inr tag)
    have "(\<exists>ts. tags = (acc @ [tag]) @ ts \<and> map Parse inputs = map Inr ts) \<longleftrightarrow>
          (\<exists>ts. tags = acc @ ts \<and> Inr tag # map Parse inputs = map Inr ts)"
      by (auto simp: Cons_eq_map_conv)
    with Inr Cons.IH[of "acc @ [tag]"] show ?thesis by simp
  qed
qed

lemma parse_inputs_first_failure:
  "\<forall>x\<in>set pre. \<not> isl (Parse x) \<Longrightarrow> Parse l = Inl e \<Longrightarrow>
   parse_inputs acc (pre @ l # post) = Inl e"
proof (induction pre arbitrary: acc)
  case Nil
  then show ?case by simp
next
  case (Cons x pre)
  then obtain t where "Parse x = Inr t" by (cases "Parse x") auto
  with Cons show ?case by simp
qed

lemma Parse_failure_examples:
  "Parse ''type=raw'' = Inl (Error ''Missing value attribute for type=raw'')"
  "Parse ''type=semver'' = Inl (Error ''Missing pattern attribute for type=semver'')"
proof -
  have f: "fields_of ''type=raw'' = Inr [''type=raw'']"
    "fields_of ''type=semver'' = Inr [''type=semver'']"
    by (simp_all add: csv_eval)
  show "Parse ''type=raw'' = Inl (Error ''Missing value attribute for type=raw'')"
    by (simp add: Parse_eval f)
  show "Parse ''type=semver'' = Inl (Error ''Missing pattern attribute for type=semver'')"
    by (simp add: Parse_eval f)
qed

subsection \<open>The comparison of priorities and the sort\<close>

lemma less_number_irrefl: "\<not> less_number x x"
  by (cases x) simp_all

lemma less_number_trans: "less_number x y \<Longrightarrow> less_number y z \<Longrightarrow> less_number x z"
  by (cases x; cases y; cases z) simp_all

lemma less_number_total: "x \<noteq> NaN \<Longrightarrow> y \<noteq> NaN \<Longrightarrow> less_number x y \<or> x = y \<or> less_number y x"
  by (cases x; cases y) auto

lemma compare_priority_pos:
  "0 < compare_priority a b \<longleftrightarrow> less_number (priority a) (priority b)"
  by (simp add: compare_priority_def)

lemma set_insert_cmp: "set (insert_cmp c x ys) = insert x (set ys)"
  by (induction ys) auto

lemma set_sort_cmp: "set (sort_cmp c xs) = set xs"
  by (induction xs) (auto simp: set_insert_cmp)

lemma length_insert_cmp: "length (insert_cmp c x ys) = Suc (length ys)"
  by (induction ys) auto

lemma length_sort_cmp: "length (sort_cmp c xs) = length xs"
  by (induction xs) (auto simp: length_insert_cmp)

lemma priority_desc_trans:
  assumes "priority a = priority b \<or> less_number (priority b) (priority a)"
    and "priority b = priority c \<or> less_number (priority c) (priority b)"
  shows "priority a = priority c \<or> less_number (priority c) (priority a)"
  using assms less_number_trans by auto

lemma sorted_insert_cmp:
  assumes "sorted_wrt priority_desc ys" and "priority x \<noteq> NaN"
    and "\<forall>t\<in>set ys. priority t \<noteq> NaN"
  shows "sorted_wrt priority_desc (insert_cmp compare_priority x ys)"
  using assms
proof (induction ys)
  case Nil
  then show ?case by simp
next
  case (Cons y ys)
  show ?case
  proof (cases "less_number (priority x) (priority y)")
    case True
    then have "priority_desc y x" by (simp add: priority_desc_def)
    with Cons True show ?thesis
      by (auto simp: compare_priority_pos set_insert_cmp)
  next
    case False
    then have xy: "priority_desc x y"
      using less_number_total[of "priority x" "priority y"] Cons.prems
      by (auto simp: priority_desc_def)
    have "priority_desc x z" if "z \<in> set ys" for z
      using xy Cons.prems(1) that priority_desc_trans[of x y z]
      by (auto simp: priority_desc_def)
    with xy False Cons.prems(1) show ?thesis
      by (auto simp: compare_priority_pos)
  qed
qed

lemma sorted_sort_cmp:
  "\<forall>t\<in>set xs. priority t \<noteq> NaN \<Longrightarrow> sorted_wrt priority_desc (sort_cmp compare_priority xs)"
  by (induction xs) (auto simp: sorted_insert_cmp set_sort_cmp)

lemma filter_insert_cmp:
  "filter (\<lambda>t. priority t = p) (insert_cmp compare_priority x ys)
     = filter (\<lambda>t. priority t = p) (x # ys)"
proof (induction ys)
  case Nil
  then show ?case by simp
next
  case (Cons y ys)
  show ?case
  proof (cases "less_number (priority x) (priority y)")
    case True
    then have "priority x \<noteq> priority y" using less_number_irrefl by auto
    with True Cons show ?thesis by (auto simp: compare_priority_pos)
  next
    case False
    then show ?thesis by (simp add: compare_priority_pos)
  qed
qed

lemma filter_sort_cmp:
  "filter (\<lambda>t. priority t = p) (sort_cmp compare_priority xs) = filter (\<lambda>t. priority t = p) xs"
  by (induction xs) (auto simp: filter_insert_cmp)

subsection \<open>Evaluating Transform on given lines\<close>

lemma fields_of_priority_examples:
  "fields_of ''a,priority=1'' = Inr [''a'', ''priority=1'']"
  "fields_of ''b,priority=x'' = Inr [''b'', ''priority=x'']"
  "fields_of ''c,priority=2'' = Inr [''c'', ''priority=2'']"
  "fields_of ''b,priority=3'' = Inr [''b'', ''priority=3'']"
  "fields_of ''d,priority=3'' = Inr [''d'', ''priority=3'']"
  by (simp_all add: csv_eval)

lemma Parse_priority_examples:
  "Parse ''a,priority=1'' = Inr \<lparr>type = Some Raw,
     attrs = [''value'' \<mapsto> ''a'', ''priority'' \<mapsto> ''1'', ''enable'' \<mapsto> ''true'']\<rparr>"
  "Parse ''b,priority=x'' = Inr \<lparr>type = Some Raw,
     attrs = [''value'' \<mapsto> ''b'', ''priority'' \<mapsto> ''x'', ''enable'' \<mapsto> ''true'']\<rparr>"
  "Parse ''c,priority=2'' = Inr \<lparr>type = Some Raw,
     attrs = [''value'' \<mapsto> ''c'', ''priority'' \<mapsto> ''2'', ''enable'' \<mapsto> ''true'']\<rparr>"
  "Parse ''b,priority=3'' = Inr \<lparr>type = Some Raw,
     attrs = [''value'' \<mapsto> ''b'', ''priority'' \<mapsto> ''3'', ''enable'' \<mapsto> ''true'']\<rparr>"
  "Parse ''d,priority=3'' = Inr \<lparr>type = Some Raw,
     attrs = [''value'' \<mapsto> ''d'', ''priority'' \<mapsto> ''3'', ''enable'' \<mapsto> ''true'']\<rparr>"
  by (simp_all add: Parse_eval fields_of_priority_examples)

lemma fields_of_default_inputs:
  "fields_of ''type=schedule'' = Inr [''type=schedule'']"
  "fields_of ''type=ref,event=branch'' = Inr [''type=ref'', ''event=branch'']"
  "fields_of ''type=ref,event=tag'' = Inr [''type=ref'', ''event=tag'']"
  "fields_of ''type=ref,event=pr'' = Inr [''type=ref'', ''event=pr'']"
  by (simp_all add: csv_eval)

lemma Parse_default_inputs:
  "Parse ''type=schedule'' = Inr \<lparr>type = Some Schedule,
     attrs = [''pattern'' \<mapsto> ''nightly'', ''enable'' \<mapsto> ''true'', ''priority'' \<mapsto> ''1000'']\<rparr>"
  "Parse ''type=ref,event=branch'' = Inr \<lparr>type = Some Ref,
     attrs = [''event'' \<mapsto> ''branch'', ''enable'' \<mapsto> ''true'', ''priority'' \<mapsto> ''600'']\<rparr>"
  "Parse ''type=ref,event=tag'' = Inr \<lparr>type = Some Ref,
     attrs = [''event'' \<mapsto> ''tag'', ''enable'' \<mapsto> ''true'', ''priority'' \<mapsto> ''600'']\<rparr>"
  "Parse ''type=ref,event=pr'' = Inr \<lparr>type = Some Ref,
     attrs = [''event'' \<mapsto> ''pr'', ''prefix'' \<mapsto> ''pr-'', ''enable'' \<mapsto> ''true'',
              ''priority'' \<mapsto> ''600'']\<rparr>"
  by (simp_all add: Parse_eval fields_of_default_inputs)

lemmas Transform_eval =
  Transform_def compare_priority_def priority_def Number_DefaultPriorities Number_small

section \<open>The claims\<close>

subsection \<open>C1: the value of a token with several \<^verbatim>\<open>=\<close>\<close>

text \<open>
  C1 says that a token is split at its first \<^verbatim>\<open>=\<close> only, so that the value is all of the
  token after the first \<^verbatim>\<open>=\<close>, later \<^verbatim>\<open>=\<close> included. The source splits with
  \<^verbatim>\<open>split('=', 2)\<close>, which splits at every \<^verbatim>\<open>=\<close> and keeps the first two parts: the value
  ends before the second \<^verbatim>\<open>=\<close>. For the line \<^verbatim>\<open>type=match,pattern=a=b\<close> the token
  \<^verbatim>\<open>pattern=a=b\<close> is split into \<^verbatim>\<open>pattern\<close> and \<^verbatim>\<open>a\<close>, and the tag returned has the
  pattern \<^verbatim>\<open>a\<close>, not \<^verbatim>\<open>a=b\<close>.
\<close>

theorem Parse_value_cut_at_second_equals:
  "fields_of ''type=match,pattern=a=b'' = Inr [''type=match'', ''pattern=a=b'']
   \<and> split ''pattern=a=b'' (CHR ''='') 2 = [''pattern'', ''a'']
   \<and> attr (Parse ''type=match,pattern=a=b'') ''pattern'' = Inr (Some ''a'')"
  by code_simp

subsection \<open>C2: the priority of a tag\<close>

text \<open>
  C2 says that the priority of every tag that \<^verbatim>\<open>Parse\<close> returns parses as a number, also
  when the line supplies the priority. The source does not check a priority that the
  line supplies: for the line \<^verbatim>\<open>foo,priority=abc\<close> it returns a tag with the priority
  \<^verbatim>\<open>abc\<close>, whose number is \<^verbatim>\<open>NaN\<close>.
\<close>

theorem Parse_priority_not_numeric:
  "attr (Parse ''foo,priority=abc'') ''priority'' = Inr (Some ''abc'')
   \<and> priority_of (Parse ''foo,priority=abc'') = Inr NaN"
  by (simp add: attr_def priority_of_def priority_def Parse_foo_priority Number_small)

text \<open>
  C2 as the source has it: every tag that \<^verbatim>\<open>Parse\<close> returns has a priority. It is the
  last priority that the line supplies, as it stands, and when the line supplies none
  it is the default priority of the type of the tag, which parses as a number.
\<close>

theorem Parse_priority_present:
  assumes "Parse s = Inr t" and "fields_of s = Inr flds"
  shows "attrs t ''priority'' =
           Some (case supplied flds ''priority'' of
                   None \<Rightarrow> DefaultPriorities (kind_of t)
                 | Some p \<Rightarrow> p)
         \<and> (supplied flds ''priority'' = None \<longrightarrow> priority t \<noteq> NaN)"
proof -
  from assms obtain tag tag1 where
    loop: "parse_fields new_Tag flds = Inr tag" and
    sw: "type_switch s (kind_of tag) (tag\<lparr>type := Some (kind_of tag)\<rparr>) = Inr tag1" and
    cd: "common_defaults (kind_of tag) tag1 = Inr t" and
    ty: "type t = Some (kind_of tag)"
    by (rule Parse_Inr_stages)
  have k: "kind_of t = kind_of tag" using ty by (simp add: kind_of_def)
  have "attrs tag1 ''priority'' = supplied flds ''priority''"
    using type_switch_priority[OF sw] parse_fields_new_attrs[OF loop, of "''priority''"] by simp
  then have p: "attrs t ''priority'' =
      Some (case supplied flds ''priority'' of None \<Rightarrow> DefaultPriorities (kind_of t) | Some p \<Rightarrow> p)"
    using common_defaults_Inr(4)[OF cd] k by (simp split: option.splits)
  then have "supplied flds ''priority'' = None \<longrightarrow> priority t \<noteq> NaN"
    by (auto simp: priority_def Number_DefaultPriorities_not_NaN)
  with p show ?thesis by simp
qed

text \<open>The line \<^verbatim>\<open>foo\<close> supplies no priority, and gets the default priority of \<^verbatim>\<open>raw\<close>.\<close>

theorem Parse_priority_present_witness:
  "attr (Parse ''foo'') ''priority'' = Inr (Some ''200'')
   \<and> priority_of (Parse ''foo'') \<noteq> Inr NaN"
  using Parse_priority_present[OF Parse_foo fields_of_examples(1)]
  by (simp add: attr_def priority_of_def Parse_foo token_eval kind_of_def)

subsection \<open>C3: empty fields\<close>




subsection \<open>C4: the order of the tags\<close>

text \<open>
  C4 says that the tags that \<^verbatim>\<open>Transform\<close> returns are ordered by descending priority,
  tags of equal priority in the order of their lines. The priority of a tag need not
  be a number (see C2), and the comparison function returns 0 whenever one of the two
  priorities is \<^verbatim>\<open>NaN\<close>. For the lines \<^verbatim>\<open>a,priority=1\<close>, \<^verbatim>\<open>b,priority=x\<close> and
  \<^verbatim>\<open>c,priority=2\<close> each tag compares equal to the next one, the sort moves nothing, and
  the tag of priority 1 stays before the tag of priority 2.
\<close>

theorem Transform_not_descending:
  "map_sum id (map (\<lambda>tag. attrs tag ''value''))
      (Transform [''a,priority=1'', ''b,priority=x'', ''c,priority=2''])
     = Inr [Some ''a'', Some ''b'', Some ''c'']
   \<and> map_sum id (map priority) (Transform [''a,priority=1'', ''b,priority=x'', ''c,priority=2''])
       = Inr [Finite 1, NaN, Finite 2]
   \<and> less_number (Finite 1) (Finite 2)
   \<and> \<not> sorted_wrt priority_desc
         (projr (Transform [''a,priority=1'', ''b,priority=x'', ''c,priority=2'']))"
  by (simp add: Transform_eval Parse_priority_examples priority_desc_def)

text \<open>
  C4 as the source has it: when the priority of every tag is a number, the tags that
  \<^verbatim>\<open>Transform\<close> returns are those of the lines (of the default lines when there is no
  input), ordered by descending priority, and the tags of each priority stand in the
  order of their lines.
\<close>

theorem Transform_sorted_stable:
  assumes "Transform inputs = Inr out" and "\<forall>t\<in>set out. priority t \<noteq> NaN"
  shows "sorted_wrt priority_desc out
         \<and> (\<exists>tags. map Parse (if inputs = [] then default_inputs else inputs) = map Inr tags
                \<and> length out = length tags \<and> set out = set tags
                \<and> (\<forall>p. filter (\<lambda>t. priority t = p) out = filter (\<lambda>t. priority t = p) tags))"
proof -
  let ?inputs = "if inputs = [] then default_inputs else inputs"
  from assms(1) obtain tags where
    loop: "parse_inputs [] ?inputs = Inr tags" and
    out: "out = sort_cmp compare_priority tags"
    by (auto simp: Transform_def Let_def split: sum.splits)
  have p: "map Parse ?inputs = map Inr tags"
    using loop parse_inputs_Inr[of "[]" ?inputs tags] by simp
  have "\<forall>t\<in>set tags. priority t \<noteq> NaN"
    using assms(2) out by (simp add: set_sort_cmp)
  then have "sorted_wrt priority_desc out"
    using out sorted_sort_cmp by simp
  moreover have "length out = length tags" "set out = set tags"
    using out by (simp_all add: length_sort_cmp set_sort_cmp)
  moreover have "\<forall>p. filter (\<lambda>t. priority t = p) out = filter (\<lambda>t. priority t = p) tags"
    using out by (simp add: filter_sort_cmp)
  ultimately show ?thesis using p by blast
qed

text \<open>
  Four lines of the priorities 1, 3, 2 and 3: the two tags of priority 3 come first, in
  the order of their lines.
\<close>

theorem Transform_sorted_stable_witness:
  "map_sum id (map (\<lambda>tag. attrs tag ''value''))
      (Transform [''a,priority=1'', ''b,priority=3'', ''c,priority=2'', ''d,priority=3''])
     = Inr [Some ''b'', Some ''d'', Some ''c'', Some ''a'']
   \<and> sorted_wrt priority_desc
        (projr (Transform [''a,priority=1'', ''b,priority=3'', ''c,priority=2'', ''d,priority=3'']))"
proof -
  let ?inputs = "[''a,priority=1'', ''b,priority=3'', ''c,priority=2'', ''d,priority=3'']"
  let ?a = "\<lparr>type = Some Raw,
     attrs = [''value'' \<mapsto> ''a'', ''priority'' \<mapsto> ''1'', ''enable'' \<mapsto> ''true'']\<rparr>"
  let ?b = "\<lparr>type = Some Raw,
     attrs = [''value'' \<mapsto> ''b'', ''priority'' \<mapsto> ''3'', ''enable'' \<mapsto> ''true'']\<rparr>"
  let ?c = "\<lparr>type = Some Raw,
     attrs = [''value'' \<mapsto> ''c'', ''priority'' \<mapsto> ''2'', ''enable'' \<mapsto> ''true'']\<rparr>"
  let ?d = "\<lparr>type = Some Raw,
     attrs = [''value'' \<mapsto> ''d'', ''priority'' \<mapsto> ''3'', ''enable'' \<mapsto> ''true'']\<rparr>"
  have T: "Transform ?inputs = Inr [?b, ?d, ?c, ?a]"
    by (simp add: Transform_eval Parse_priority_examples)
  have "\<forall>t\<in>set [?b, ?d, ?c, ?a]. priority t \<noteq> NaN"
    by (simp add: priority_def Number_small)
  from Transform_sorted_stable[OF T this] have "sorted_wrt priority_desc [?b, ?d, ?c, ?a]"
    by blast
  then show ?thesis by (simp add: T)
qed

subsection \<open>C5: no input\<close>

text \<open>
  C5: for the empty list of inputs \<^verbatim>\<open>Transform\<close> returns four tags, those that \<^verbatim>\<open>Parse\<close>
  returns for \<^verbatim>\<open>type=schedule\<close>, \<^verbatim>\<open>type=ref,event=branch\<close>, \<^verbatim>\<open>type=ref,event=tag\<close> and
  \<^verbatim>\<open>type=ref,event=pr\<close>, in this order: the tag of type \<^verbatim>\<open>schedule\<close>, of priority
  \<^verbatim>\<open>1000\<close>, and the three tags of type \<^verbatim>\<open>ref\<close>, of priority \<^verbatim>\<open>600\<close>, for the events
  \<^verbatim>\<open>branch\<close>, \<^verbatim>\<open>tag\<close> and \<^verbatim>\<open>pr\<close>.
\<close>

theorem Transform_no_input:
  "map_sum id (map Inr) (Transform [])
     = Inr [Parse ''type=schedule'', Parse ''type=ref,event=branch'',
            Parse ''type=ref,event=tag'', Parse ''type=ref,event=pr'']
   \<and> map_sum id (map (\<lambda>tag. (type tag, attrs tag ''priority'', attrs tag ''event'')))
         (Transform [])
       = Inr [(Some Schedule, Some ''1000'', None), (Some Ref, Some ''600'', Some ''branch''),
              (Some Ref, Some ''600'', Some ''tag''), (Some Ref, Some ''600'', Some ''pr'')]"
  by (simp add: Transform_eval default_inputs_def Parse_default_inputs)

subsection \<open>C6: one line that fails\<close>

text \<open>
  C6: when \<^verbatim>\<open>Parse\<close> fails on a line of the inputs, \<^verbatim>\<open>Transform\<close> fails with the error of
  the first such line, and returns no tags: the tags of the lines before it are lost
  with the exception.
\<close>

theorem Transform_first_failure:
  assumes "\<forall>x\<in>set pre. \<not> isl (Parse x)" and "Parse l = Inl e"
  shows "Transform (pre @ l # post) = Inl e"
  using parse_inputs_first_failure[OF assms, of "[]" post]
  by (simp add: Transform_def)

text \<open>
  The line \<^verbatim>\<open>foo\<close> is parsed, \<^verbatim>\<open>type=raw\<close> fails, and \<^verbatim>\<open>type=semver\<close>, which would fail
  with another error, is not reached.
\<close>

theorem Transform_first_failure_witness:
  "Transform [''foo'', ''type=raw'', ''type=semver'']
     = Inl (Error ''Missing value attribute for type=raw'')
   \<and> Parse ''type=semver'' = Inl (Error ''Missing pattern attribute for type=semver'')
   \<and> \<not> isl (Parse ''foo'')"
  using Transform_first_failure[of "[''foo'']" "''type=raw''" _ "[''type=semver'']"]
  by (simp add: Parse_foo Parse_failure_examples)

subsection \<open>C7: the attribute \<^verbatim>\<open>enable\<close>\<close>

text \<open>
  C7 says that \<^verbatim>\<open>Parse\<close> fails with the error \<^verbatim>\<open>Invalid value for enable attribute\<close>
  whenever the line supplies a value of \<^verbatim>\<open>enable\<close> other than \<^verbatim>\<open>true\<close> and \<^verbatim>\<open>false\<close>.
  The source checks \<^verbatim>\<open>enable\<close> last, after the checks of the type: the line
  \<^verbatim>\<open>type=ref,enable=no\<close> fails with the error of the missing event instead.
\<close>

theorem Parse_enable_checked_last:
  "supplied [''type=ref'', ''enable=no''] ''enable'' = Some ''no''
   \<and> fields_of ''type=ref,enable=no'' = Inr [''type=ref'', ''enable=no'']
   \<and> error_of (Parse ''type=ref,enable=no'')
       = Some (Error ''Missing event attribute for type=ref,enable=no'')"
  by (simp add: fields_of_enable_examples token_eval error_of_def Parse_eval)

text \<open>
  C7 as the source has it: in every tag that \<^verbatim>\<open>Parse\<close> returns, \<^verbatim>\<open>enable\<close> is \<^verbatim>\<open>true\<close>
  or \<^verbatim>\<open>false\<close>: the last value that the line supplies, and \<^verbatim>\<open>true\<close> when it supplies
  none. When the line supplies another value \<^verbatim>\<open>Parse\<close> fails: with the error of the
  type, of the event, of the pattern, of the group, of the value or of the format if one
  of these checks fails, which come first, and otherwise with
  \<^verbatim>\<open>Invalid value for enable attribute\<close> and the value.
\<close>

theorem Parse_enable:
  assumes "fields_of s = Inr flds"
  shows "(\<forall>t. Parse s = Inr t \<longrightarrow>
            attrs t ''enable'' =
              Some (case supplied flds ''enable'' of None \<Rightarrow> ''true'' | Some v \<Rightarrow> v)
            \<and> (attrs t ''enable'' = Some ''true'' \<or> attrs t ''enable'' = Some ''false''))
         \<and> (\<forall>v. supplied flds ''enable'' = Some v \<and> v \<noteq> ''true'' \<and> v \<noteq> ''false'' \<longrightarrow>
              Parse s =
                (case Parse_switch s of
                   Inl e \<Rightarrow> Inl e
                 | Inr tag \<Rightarrow> Inl (Error (''Invalid value for enable attribute: '' @ v))))"
proof (intro conjI allI impI)
  fix t assume ok: "Parse s = Inr t"
  then obtain tag1 where sw: "Parse_switch s = Inr tag1"
    and cd: "common_defaults (kind_of tag1) tag1 = Inr t"
    by (auto simp: Parse_stages split: sum.splits)
  have "attrs tag1 ''enable'' = supplied flds ''enable''"
    using Parse_switch_Inr_attrs[OF assms sw] by simp
  then show "attrs t ''enable'' =
      Some (case supplied flds ''enable'' of None \<Rightarrow> ''true'' | Some v \<Rightarrow> v)"
    using common_defaults_Inr(2)[OF cd] by simp
  show "attrs t ''enable'' = Some ''true'' \<or> attrs t ''enable'' = Some ''false''"
    using common_defaults_Inr(3)[OF cd] .
next
  fix v assume v: "supplied flds ''enable'' = Some v \<and> v \<noteq> ''true'' \<and> v \<noteq> ''false''"
  show "Parse s =
      (case Parse_switch s of
         Inl e \<Rightarrow> Inl e
       | Inr tag \<Rightarrow> Inl (Error (''Invalid value for enable attribute: '' @ v)))"
  proof (cases "Parse_switch s")
    case (Inl e)
    then show ?thesis by (simp add: Parse_stages)
  next
    case (Inr tag1)
    have "attrs tag1 ''enable'' = Some v"
      using Parse_switch_Inr_attrs[OF assms Inr] v by simp
    then show ?thesis using Inr v by (simp add: Parse_stages common_defaults_cases)
  qed
qed

text \<open>
  The line \<^verbatim>\<open>foo\<close> supplies no \<^verbatim>\<open>enable\<close>; the line \<^verbatim>\<open>foo,enable=no\<close> passes the
  check of its type and fails for its \<^verbatim>\<open>enable\<close>.
\<close>

theorem Parse_enable_witness:
  "attr (Parse ''foo'') ''enable'' = Inr (Some ''true'')
   \<and> supplied [''foo'', ''enable=no''] ''enable'' = Some ''no''
   \<and> error_of (Parse ''foo,enable=no'') = Some (Error ''Invalid value for enable attribute: no'')"
proof -
  have sw: "\<not> isl (Parse_switch ''foo,enable=no'')"
    by (simp add: Parse_switch_eval fields_of_enable_examples)
  have sup: "supplied [''foo'', ''enable=no''] ''enable'' = Some ''no''"
    by (simp add: token_eval)
  have "Parse ''foo,enable=no'' = Inl (Error ''Invalid value for enable attribute: no'')"
    using Parse_enable[OF fields_of_enable_examples(1)] sup sw
    by (cases "Parse_switch ''foo,enable=no''") auto
  moreover have "attrs t ''enable'' = Some ''true''" if "Parse ''foo'' = Inr t" for t
    using Parse_enable[OF fields_of_examples(1)] that by (simp add: token_eval)
  ultimately show ?thesis
    using sup by (simp add: attr_def error_of_def Parse_foo)
qed

subsection \<open>C8: the type \<^verbatim>\<open>raw\<close>\<close>

text \<open>
  C8 says that of several tokens without \<^verbatim>\<open>=\<close> the last one is the value. A token
  with the key \<^verbatim>\<open>value\<close> sets the same attribute, and the loop over the fields keeps
  what the last field sets: on the line \<^verbatim>\<open>a,b,value=c\<close> the tokens without \<^verbatim>\<open>=\<close> are
  \<^verbatim>\<open>a\<close> and \<^verbatim>\<open>b\<close>, and the tag returned has the value \<^verbatim>\<open>c\<close>, not \<^verbatim>\<open>b\<close>.
\<close>

theorem Parse_positional_value_overwritten:
  "fields_of ''a,b,value=c'' = Inr [''a'', ''b'', ''value=c'']
   \<and> CHR ''='' \<notin> set ''a'' \<and> CHR ''='' \<notin> set ''b''
   \<and> attr (Parse ''a,b,value=c'') ''value'' = Inr (Some ''c'')
   \<and> attr (Parse ''a,b,value=c'') ''value'' \<noteq> Inr (Some ''b'')"
proof -
  have f: "fields_of ''a,b,value=c'' = Inr [''a'', ''b'', ''value=c'']"
    by (simp add: csv_eval)
  have "attr (Parse ''a,b,value=c'') ''value'' = Inr (Some ''c'')"
    by (simp add: attr_def Parse_eval f)
  with f show ?thesis by simp
qed

text \<open>
  C8 as the source has it, on the fields \<open>flds\<close> of a line \<open>s\<close>. When no field has the
  key \<^verbatim>\<open>type\<close>, a tag that \<^verbatim>\<open>Parse\<close> returns has the type \<^verbatim>\<open>raw\<close>. A line of the type
  \<^verbatim>\<open>raw\<close> (by default or by its fields) that supplies no value fails with
  \<^verbatim>\<open>Missing value attribute\<close> and the line. A line of one field without \<^verbatim>\<open>=\<close> gives the
  tag of type \<^verbatim>\<open>raw\<close> whose value is the field trimmed, with the defaults of \<^verbatim>\<open>enable\<close>
  and of the priority. Of several fields without \<^verbatim>\<open>=\<close> the last one is the value, when
  no field with the key \<^verbatim>\<open>value\<close> follows it.
\<close>

theorem Parse_raw:
  assumes "fields_of s = Inr flds"
  shows "((\<forall>f\<in>set flds. token_key f \<noteq> ''type'') \<longrightarrow>
            (\<forall>t. Parse s = Inr t \<longrightarrow> type t = Some Raw))
         \<and> ((\<forall>f\<in>set flds. token_key f \<noteq> ''type'' \<and> token_key f \<noteq> ''value'') \<longrightarrow>
              Parse s = Inl (Error (''Missing value attribute for '' @ s)))
         \<and> (\<forall>tag. parse_fields new_Tag flds = Inr tag \<and> kind_of tag = Raw
                    \<and> supplied flds ''value'' = None \<longrightarrow>
              Parse s = Inl (Error (''Missing value attribute for '' @ s)))
         \<and> (\<forall>tok. flds = [tok] \<and> CHR ''='' \<notin> set tok \<longrightarrow>
              Parse s = Inr \<lparr>type = Some Raw,
                attrs = [''value'' \<mapsto> trim tok, ''enable'' \<mapsto> ''true'',
                         ''priority'' \<mapsto> ''200'']\<rparr>)
         \<and> (\<forall>pre tok post t.
               flds = pre @ tok # post \<and> CHR ''='' \<notin> set tok
               \<and> (\<forall>g\<in>set post. token_key g \<noteq> ''value'') \<and> Parse s = Inr t \<longrightarrow>
               attrs t ''value'' = Some (trim tok))"
proof (intro conjI allI impI)
  fix t
  assume nt: "\<forall>f\<in>set flds. token_key f \<noteq> ''type''" and ok: "Parse s = Inr t"
  from ok assms obtain tag where loop: "parse_fields new_Tag flds = Inr tag"
    and ty: "type t = Some (kind_of tag)"
    by (rule Parse_Inr_stages)
  have "supplied flds ''type'' = None" using nt by (simp add: supplied_None_iff)
  then have "type tag = None" using parse_fields_new_type[OF loop] by simp
  then show "type t = Some Raw" using ty by (simp add: kind_of_def)
next
  assume nv: "\<forall>f\<in>set flds. token_key f \<noteq> ''type'' \<and> token_key f \<noteq> ''value''"
  then obtain tag where loop: "parse_fields new_Tag flds = Inr tag"
    using parse_fields_no_type[of flds new_Tag] by auto
  have "supplied flds ''type'' = None" "supplied flds ''value'' = None"
    using nv by (simp_all add: supplied_None_iff)
  then have "kind_of tag = Raw" "supplied flds ''value'' = None"
    using parse_fields_new_type[OF loop] by (simp_all add: kind_of_def)
  then show "Parse s = Inl (Error (''Missing value attribute for '' @ s))"
    using Parse_raw_missing_value[OF assms loop] by simp
next
  fix tag
  assume "parse_fields new_Tag flds = Inr tag \<and> kind_of tag = Raw
          \<and> supplied flds ''value'' = None"
  then show "Parse s = Inl (Error (''Missing value attribute for '' @ s))"
    using Parse_raw_missing_value[OF assms] by simp
next
  fix tok
  assume one: "flds = [tok] \<and> CHR ''='' \<notin> set tok"
  then have "parse_fields new_Tag flds = Inr (set_attr new_Tag ''value'' (trim tok))"
    by (simp add: parse_field_def split_2_positional)
  then show "Parse s = Inr \<lparr>type = Some Raw,
      attrs = [''value'' \<mapsto> trim tok, ''enable'' \<mapsto> ''true'', ''priority'' \<mapsto> ''200'']\<rparr>"
    using assms
    by (simp add: Parse_def finish_def common_defaults_def set_attr_def set_default_def
        hasOwnProperty_def new_Tag_def Let_def)
next
  fix pre tok post t
  assume h: "flds = pre @ tok # post \<and> CHR ''='' \<notin> set tok
             \<and> (\<forall>g\<in>set post. token_key g \<noteq> ''value'') \<and> Parse s = Inr t"
  from h assms obtain tag tag1 where
    loop: "parse_fields new_Tag flds = Inr tag" and
    sw: "type_switch s (kind_of tag) (tag\<lparr>type := Some (kind_of tag)\<rparr>) = Inr tag1" and
    cd: "common_defaults (kind_of tag) tag1 = Inr t"
    using Parse_Inr_stages[of s t flds] by blast
  have "supplied flds ''value'' = Some (trim tok)"
    using h supplied_last[of tok "''value''" post pre] token_positional[of tok] by simp
  then have "attrs tag ''value'' = Some (trim tok)"
    using parse_fields_new_attrs[OF loop, of "''value''"] by simp
  then have "attrs tag1 ''value'' = Some (trim tok)"
    using type_switch_keeps[OF sw, of "''value''"] by simp
  then show "attrs t ''value'' = Some (trim tok)"
    using common_defaults_Inr(5)[OF cd, of "''value''"] by simp
qed

text \<open>
  The line \<^verbatim>\<open>foo\<close> of the specification; the line \<^verbatim>\<open>a,b\<close>, whose last field is the
  value; the lines \<^verbatim>\<open>x=1\<close> and \<^verbatim>\<open>type=raw\<close>, without a value.
\<close>

theorem Parse_raw_witness:
  "Parse ''foo'' = Inr \<lparr>type = Some Raw,
     attrs = [''value'' \<mapsto> ''foo'', ''enable'' \<mapsto> ''true'', ''priority'' \<mapsto> ''200'']\<rparr>
   \<and> \<not> isl (Parse ''a,b'')
   \<and> attr (Parse ''a,b'') ''value'' = Inr (Some ''b'')
   \<and> map_sum id type (Parse ''a,b'') = Inr (Some Raw)
   \<and> Parse ''x=1'' = Inl (Error ''Missing value attribute for x=1'')
   \<and> Parse ''type=raw'' = Inl (Error ''Missing value attribute for type=raw'')"
proof -
  have raw: "Parse ''type=raw'' = Inl (Error ''Missing value attribute for type=raw'')"
  proof -
    have "parse_fields new_Tag [''type=raw''] = Inr \<lparr>type = Some Raw, attrs = Map.empty\<rparr>"
      by (simp add: Parse_eval)
    then show ?thesis
      using Parse_raw[OF fields_of_raw_examples(3)] by (simp add: kind_of_def token_eval)
  qed
  have foo: "Parse ''foo'' = Inr \<lparr>type = Some Raw,
     attrs = [''value'' \<mapsto> ''foo'', ''enable'' \<mapsto> ''true'', ''priority'' \<mapsto> ''200'']\<rparr>"
    using Parse_raw[OF fields_of_examples(1)] by (simp add: trim_def isWhiteSpace_def)
  have x: "Parse ''x=1'' = Inl (Error ''Missing value attribute for x=1'')"
    using Parse_raw[OF fields_of_raw_examples(1)] by (simp add: token_eval)
  have ok: "\<not> isl (Parse ''a,b'')"
    by (simp add: Parse_eval fields_of_raw_examples)
  then obtain t where t: "Parse ''a,b'' = Inr t" by (cases "Parse ''a,b''") auto
  have "type t = Some Raw"
    using Parse_raw[OF fields_of_raw_examples(2)] t by (simp add: token_eval)
  moreover have "attrs t ''value'' = Some ''b''"
  proof -
    have "[''a'', ''b''] = [''a''] @ ''b'' # [] \<and> CHR ''='' \<notin> set ''b''
          \<and> (\<forall>g\<in>set []. token_key g \<noteq> ''value'') \<and> Parse ''a,b'' = Inr t"
      using t by simp
    then have "attrs t ''value'' = Some (trim ''b'')"
      using Parse_raw[OF fields_of_raw_examples(2)] by blast
    then show ?thesis by (simp add: trim_def isWhiteSpace_def)
  qed
  ultimately show ?thesis using foo x raw ok t by (simp add: attr_def)
qed

subsection \<open>C9: the type \<^verbatim>\<open>ref\<close>\<close>

text \<open>
  C9 says that a line of the type \<^verbatim>\<open>ref\<close> whose event is one of \<^verbatim>\<open>branch\<close>, \<^verbatim>\<open>tag\<close>
  and \<^verbatim>\<open>pr\<close> is parsed with success. The check of \<^verbatim>\<open>enable\<close> follows the checks of
  the event: the line \<^verbatim>\<open>type=ref,event=branch,enable=no\<close> has the type \<^verbatim>\<open>ref\<close> and the
  event \<^verbatim>\<open>branch\<close>, and \<^verbatim>\<open>Parse\<close> fails on it.
\<close>

theorem Parse_ref_valid_event_fails:
  "fields_of ''type=ref,event=branch,enable=no'' = Inr [''type=ref'', ''event=branch'', ''enable=no'']
   \<and> supplied [''type=ref'', ''event=branch'', ''enable=no''] ''type'' = Some ''ref''
   \<and> supplied [''type=ref'', ''event=branch'', ''enable=no''] ''event'' = Some ''branch''
   \<and> error_of (Parse ''type=ref,event=branch,enable=no'')
       = Some (Error ''Invalid value for enable attribute: no'')"
  by (simp add: fields_of_enable_examples token_eval error_of_def Parse_eval)

text \<open>
  C9 as the source has it. For a line whose type after the loop over its fields is
  \<^verbatim>\<open>ref\<close>: \<^verbatim>\<open>Parse\<close> fails with \<^verbatim>\<open>Missing event attribute\<close> exactly when the line
  supplies no event, and with \<^verbatim>\<open>Invalid event\<close> exactly when the event it supplies is
  none of \<^verbatim>\<open>branch\<close>, \<^verbatim>\<open>tag\<close> and \<^verbatim>\<open>pr\<close>. With one of these events \<^verbatim>\<open>Parse\<close> returns
  a tag when the line supplies no \<^verbatim>\<open>enable\<close>, or \<^verbatim>\<open>true\<close> or \<^verbatim>\<open>false\<close>, and fails with
  \<^verbatim>\<open>Invalid value for enable attribute\<close> otherwise. A tag returned for the event \<^verbatim>\<open>pr\<close>
  and no prefix supplied has the prefix \<^verbatim>\<open>pr-\<close>.
\<close>

theorem Parse_ref:
  assumes "fields_of s = Inr flds" and "parse_fields new_Tag flds = Inr tag"
    and "type tag = Some Ref"
  shows "((Parse s = Inl (Error (''Missing event attribute for '' @ s)))
            = (supplied flds ''event'' = None))
         \<and> ((Parse s = Inl (Error (''Invalid event for '' @ s)))
              = (\<exists>ev. supplied flds ''event'' = Some ev \<and> ev \<notin> set RefEvent_values))
         \<and> (\<forall>ev. supplied flds ''event'' = Some ev \<and> ev \<in> set RefEvent_values \<longrightarrow>
               (case supplied flds ''enable'' of
                  None \<Rightarrow> \<not> isl (Parse s)
                | Some v \<Rightarrow>
                    if v = ''true'' \<or> v = ''false'' then \<not> isl (Parse s)
                    else Parse s = Inl (Error (''Invalid value for enable attribute: '' @ v))))
         \<and> (\<forall>t. Parse s = Inr t \<and> supplied flds ''event'' = Some ''pr''
                  \<and> supplied flds ''prefix'' = None \<longrightarrow>
               attrs t ''prefix'' = Some ''pr-'')"
proof -
  let ?tag0 = "tag\<lparr>type := Some Ref\<rparr>"
  have k: "kind_of tag = Ref" using assms(3) by (simp add: kind_of_def)
  have sw: "Parse_switch s = type_switch s Ref ?tag0"
    using Parse_after_loop[OF assms(1,2)] k by simp
  have ev: "attrs ?tag0 ''event'' = supplied flds ''event''"
    and en: "attrs ?tag0 ''enable'' = supplied flds ''enable''"
    and pr: "attrs ?tag0 ''prefix'' = supplied flds ''prefix''"
    using parse_fields_new_attrs[OF assms(2)] by simp_all
  have P: "Parse s = (case type_switch s Ref ?tag0 of
                        Inl e \<Rightarrow> Inl e
                      | Inr tag1 \<Rightarrow> common_defaults Ref tag1)"
    using sw type_switch_type[of s Ref ?tag0]
    by (auto simp: Parse_stages kind_of_def split: sum.splits)
  show ?thesis
  proof (cases "supplied flds ''event''")
    case None
    then have "Parse s = Inl (Error (''Missing event attribute for '' @ s))"
      using P ev by (simp add: hasOwnProperty_def)
    with None show ?thesis by simp
  next
    case (Some e)
    show ?thesis
    proof (cases "e \<in> set RefEvent_values")
      case False
      then have "Parse s = Inl (Error (''Invalid event for '' @ s))"
        using P ev Some by (auto simp: hasOwnProperty_def)
      with Some False show ?thesis by simp
    next
      case True
      define tag1 where
        "tag1 = (if e = ''pr'' \<and> supplied flds ''prefix'' = None
                 then set_attr ?tag0 ''prefix'' ''pr-'' else ?tag0)"
      have sw1: "type_switch s Ref ?tag0 = Inr tag1"
        using ev pr Some True by (auto simp: hasOwnProperty_def tag1_def)
      have P1: "Parse s = common_defaults Ref tag1" using P sw1 by simp
      have en1: "attrs tag1 ''enable'' = supplied flds ''enable''"
        using en by (simp add: tag1_def set_attr_def)
      have res: "Parse s =
          (case supplied flds ''enable'' of
             None \<Rightarrow> Inr (set_default (set_attr tag1 ''enable'' ''true'') ''priority'' (DefaultPriorities Ref))
           | Some v \<Rightarrow>
               if v = ''true'' \<or> v = ''false''
               then Inr (set_default tag1 ''priority'' (DefaultPriorities Ref))
               else Inl (Error (''Invalid value for enable attribute: '' @ v)))"
        using P1 en1 by (simp add: common_defaults_cases)
      have a: "Parse s \<noteq> Inl (Error (''Missing event attribute for '' @ s))"
        using res by (auto split: option.splits if_splits)
      have b: "Parse s \<noteq> Inl (Error (''Invalid event for '' @ s))"
        using res by (auto split: option.splits if_splits)
      have c: "case supplied flds ''enable'' of
                 None \<Rightarrow> \<not> isl (Parse s)
               | Some v \<Rightarrow>
                   if v = ''true'' \<or> v = ''false'' then \<not> isl (Parse s)
                   else Parse s = Inl (Error (''Invalid value for enable attribute: '' @ v))"
        using res by (auto split: option.splits)
      have d: "attrs t ''prefix'' = Some ''pr-''"
        if "Parse s = Inr t" "supplied flds ''event'' = Some ''pr''" "supplied flds ''prefix'' = None"
        for t
      proof -
        have "attrs tag1 ''prefix'' = Some ''pr-''"
          using that(2,3) Some by (simp add: tag1_def set_attr_def)
        moreover have "common_defaults Ref tag1 = Inr t" using P1 that(1) by simp
        ultimately show ?thesis using common_defaults_Inr(5)[of Ref tag1 t "''prefix''"] by simp
      qed
      from a b c d Some True show ?thesis by auto
    qed
  qed
qed

text \<open>The line \<^verbatim>\<open>type=ref,event=pr\<close>.\<close>

theorem Parse_ref_witness:
  "\<not> isl (Parse ''type=ref,event=pr'')
   \<and> attr (Parse ''type=ref,event=pr'') ''prefix'' = Inr (Some ''pr-'')
   \<and> Parse ''type=ref,event=pr'' \<noteq> Inl (Error ''Missing event attribute for type=ref,event=pr'')
   \<and> Parse ''type=ref,event=pr'' \<noteq> Inl (Error ''Invalid event for type=ref,event=pr'')"
proof -
  let ?flds = "[''type=ref'', ''event=pr'']"
  let ?tag = "\<lparr>type = Some Ref, attrs = [''event'' \<mapsto> ''pr'']\<rparr>"
  have loop: "parse_fields new_Tag ?flds = Inr ?tag"
    by (simp add: Parse_eval)
  have sup: "supplied ?flds ''event'' = Some ''pr''" "supplied ?flds ''enable'' = None"
    "supplied ?flds ''prefix'' = None"
    by (simp_all add: token_eval)
  note inst = Parse_ref[OF fields_of_enable_examples(4) loop, simplified sup]
  have ok: "\<not> isl (Parse ''type=ref,event=pr'')"
    using inst by (simp add: RefEvent_values_def)
  then obtain t where t: "Parse ''type=ref,event=pr'' = Inr t"
    by (cases "Parse ''type=ref,event=pr''") auto
  then have "attrs t ''prefix'' = Some ''pr-''" using inst by simp
  with t show ?thesis by (simp add: attr_def)
qed

subsection \<open>C10: a line without a record\<close>

text \<open>
  C10: for the empty string, and for a line all of whose fields are empty, \<^verbatim>\<open>Parse\<close>
  returns no tag and raises none of its own errors: the CSV parser gives no record,
  \<^verbatim>\<open>fields\<close> is undefined, and the loop over it raises a \<^verbatim>\<open>TypeError\<close> of the runtime.
  This holds for every line made of commas and white space only, line breaks included.
\<close>

theorem Parse_blank_line_no_rule:
  assumes "\<forall>c\<in>set s. c = delimiter \<or> isWhiteSpace c"
  shows "Parse s = Inl (TypeError ''fields is not iterable'')"
  using csvparse_blank[OF assms] by (simp add: Parse_def fields_of_def)

text \<open>The empty string, a single comma, and blank fields between commas.\<close>

theorem Parse_blank_line_no_rule_witness:
  "Parse [] = Inl (TypeError ''fields is not iterable'')
   \<and> Parse '','' = Inl (TypeError ''fields is not iterable'')
   \<and> Parse '' , ,'' = Inl (TypeError ''fields is not iterable'')"
  using Parse_blank_line_no_rule[of "[]"] Parse_blank_line_no_rule[of "'',''"]
    Parse_blank_line_no_rule[of "'' , ,''"]
  by (simp add: delimiter_def isWhiteSpace_def)

end
